theory Spec2Isabelle
  imports Complex_Main "HOL-Library.AList"
begin

section \<open>Python values, dictionaries and the clock\<close>

text \<open>
  The rate limiter of \<^verbatim>\<open>twitter_bot/rate_limiter.py\<close> keeps its history as a deque of
  Python dictionaries and persists it as JSON. A naive \<^verbatim>\<open>datetime\<close> is modelled by the
  number of microseconds since 0001-01-01T00:00:00 (its resolution is one microsecond), a
  \<^verbatim>\<open>timedelta\<close> by a number of microseconds. A datetime object is naive or aware:
  \<^verbatim>\<open>datetime.now()\<close> gives naive ones, \<^verbatim>\<open>datetime.fromisoformat\<close> gives an aware
  one for a string with a UTC offset. An aware datetime is its local time and its offset;
  ordering it against a naive one raises TypeError. Values that can sit in a dictionary
  or in the parsed JSON file are \<open>pyval\<close>; JSON numbers with a fraction are left out.
  Floating-point arithmetic (delays, multipliers) is modelled by exact rational arithmetic.
\<close>

type_synonym datetime = int

datatype stamp = Naive datetime | Aware datetime int

datatype pyval =
    PNone
  | PBool bool
  | PInt int
  | PStr string
  | PList "pyval list"
  | PDict "(string \<times> pyval) list"
  | PDatetime stamp

type_synonym pydict = "(string \<times> pyval) list"

datatype pyexc = KeyError | TypeError | AttributeError | IndexError

text \<open>Truth value of an object, as \<^verbatim>\<open>if x:\<close> and \<^verbatim>\<open>not x\<close> take it.\<close>

fun truthy :: "pyval \<Rightarrow> bool" where
  "truthy PNone = False"
| "truthy (PBool b) = b"
| "truthy (PInt n) = (n \<noteq> 0)"
| "truthy (PStr s) = (s \<noteq> [])"
| "truthy (PList xs) = (xs \<noteq> [])"
| "truthy (PDict d) = (d \<noteq> [])"
| "truthy (PDatetime t) = True"

text \<open>\<^verbatim>\<open>d[k]\<close> raises KeyError on a missing key; \<^verbatim>\<open>d.get(k)\<close> gives None.\<close>

definition subscript :: "pydict \<Rightarrow> string \<Rightarrow> pyexc + pyval" where
  "subscript d k = (case map_of d k of None \<Rightarrow> Inl KeyError | Some v \<Rightarrow> Inr v)"

definition dict_get :: "pydict \<Rightarrow> string \<Rightarrow> pyval \<Rightarrow> pyval" where
  "dict_get d k dflt = (case map_of d k of None \<Rightarrow> dflt | Some v \<Rightarrow> v)"

text \<open>
  \<^verbatim>\<open>x > cutoff\<close> with the naive \<^verbatim>\<open>datetime.now() - timedelta(...)\<close> on the right: only
  a naive datetime on the left compares.
\<close>

definition py_gt :: "pyval \<Rightarrow> datetime \<Rightarrow> pyexc + bool" where
  "py_gt v cutoff =
     (case v of PDatetime (Naive t) \<Rightarrow> Inr (t > cutoff) | _ \<Rightarrow> Inl TypeError)"

definition timedelta_hours :: "int \<Rightarrow> int" where
  "timedelta_hours h = h * 3600000000"

definition timedelta_days :: "int \<Rightarrow> int" where
  "timedelta_days d = d * 86400000000"

definition timedelta_minutes :: "int \<Rightarrow> int" where
  "timedelta_minutes m = m * 60000000"

text \<open>\<^verbatim>\<open>datetime.hour\<close>: the epoch of the model is a midnight.\<close>

definition hour_of :: "datetime \<Rightarrow> int" where
  "hour_of t = (t div 3600000000) mod 24"

text \<open>\<^verbatim>\<open>datetime.weekday()\<close>: 0001-01-01 is a Monday (weekday 0).\<close>

definition weekday :: "datetime \<Rightarrow> int" where
  "weekday t = (t div 86400000000) mod 7"

definition is_weekend :: "datetime \<Rightarrow> bool" where
  "is_weekend now = (weekday now \<ge> 5)"

text \<open>
  The two functions of Python's \<^verbatim>\<open>datetime\<close> that the persistence code relies on are
  parameters of the model: \<^verbatim>\<open>datetime.isoformat\<close> and \<^verbatim>\<open>datetime.fromisoformat\<close>
  (\<open>None\<close> where it raises; a naive or an aware datetime otherwise).
\<close>

record pylib =
  isoformat :: "stamp \<Rightarrow> string"
  fromisoformat :: "string \<Rightarrow> stamp option"

section \<open>The rate limiter's state\<close>

record rate_limiter =
  max_actions_per_hour :: int
  max_actions_per_day :: int
  max_likes_per_hour :: int
  max_replies_per_hour :: int
  max_retweets_per_hour :: int
  actions_history :: "pydict list"
  delay_between_actions :: "rat \<times> rat"
  delay_after_error :: "rat \<times> rat"
  weekend_mode :: bool
  weekend_reduction :: rat
  consecutive_errors :: int
  last_error_time :: "datetime option"
  burst_mode :: bool
  quiet_periods :: "(int \<times> int) list"
  daily_pattern :: "rat list"

text \<open>\<^verbatim>\<open>deque(maxlen=10000)\<close>: appending to a full deque discards the leftmost item.\<close>

definition maxlen :: nat where
  "maxlen = 10000"

definition deque_append :: "'a list \<Rightarrow> 'a \<Rightarrow> 'a list" where
  "deque_append xs x = (if length xs \<ge> maxlen then tl xs @ [x] else xs @ [x])"

definition deque_of :: "'a list \<Rightarrow> 'a list" where
  "deque_of xs = drop (length xs - maxlen) xs"

section \<open>Daily activity pattern\<close>

text \<open>
  The base multiplier that \<^verbatim>\<open>_generate_daily_pattern\<close> picks for an hour, branch by
  branch as the source's \<^verbatim>\<open>if/elif\<close> chain has it.
\<close>

definition hour_multiplier :: "int \<Rightarrow> rat" where
  "hour_multiplier hour =
     (if 6 \<le> hour \<and> hour \<le> 9 then 1.5
      else if 12 \<le> hour \<and> hour \<le> 13 then 0.8
      else if 17 \<le> hour \<and> hour \<le> 22 then 1.8
      else if 23 \<le> hour \<and> hour \<le> 5 then 0.3
      else 1.0)"

text \<open>
  \<^verbatim>\<open>_generate_daily_pattern\<close>: \<open>rnd h\<close> is the value \<^verbatim>\<open>random.random()\<close> returns in
  the iteration for hour \<open>h\<close>.
\<close>

definition generate_daily_pattern :: "(nat \<Rightarrow> rat) \<Rightarrow> rat list" where
  "generate_daily_pattern rnd =
     map (\<lambda>hour. hour_multiplier (int hour) * (0.8 + rnd hour * 0.4)) [0..<24]"

section \<open>Counting actions in a trailing window\<close>

text \<open>
  \<^verbatim>\<open>_get_actions_in_timeframe\<close>. Every function below reads the clock once: \<open>now\<close> is
  the value of \<^verbatim>\<open>datetime.now()\<close> for the call. The loop raises where the source does:
  a record without the key, or a timestamp that is not a datetime.
\<close>

fun count_loop :: "pydict list \<Rightarrow> datetime \<Rightarrow> string option \<Rightarrow> int \<Rightarrow> pyexc + int" where
  "count_loop [] cutoff action_type count = Inr count"
| "count_loop (action # rest) cutoff action_type count =
     (case subscript action ''timestamp'' of
        Inl e \<Rightarrow> Inl e
      | Inr ts \<Rightarrow>
         (case py_gt ts cutoff of
            Inl e \<Rightarrow> Inl e
          | Inr newer \<Rightarrow>
             if newer then
               (case action_type of
                  None \<Rightarrow> count_loop rest cutoff action_type (count + 1)
                | Some ty \<Rightarrow>
                   (case subscript action ''type'' of
                      Inl e \<Rightarrow> Inl e
                    | Inr v \<Rightarrow>
                       if v = PStr ty then count_loop rest cutoff action_type (count + 1)
                       else count_loop rest cutoff action_type count))
             else count_loop rest cutoff action_type count))"

definition get_actions_in_timeframe ::
  "rate_limiter \<Rightarrow> datetime \<Rightarrow> int \<Rightarrow> string option \<Rightarrow> pyexc + int" where
  "get_actions_in_timeframe st now hours action_type =
     count_loop (actions_history st) (now - timedelta_hours hours) action_type 0"

section \<open>Pacing\<close>

text \<open>\<^verbatim>\<open>_get_current_activity_multiplier\<close>.\<close>

definition get_current_activity_multiplier :: "rate_limiter \<Rightarrow> datetime \<Rightarrow> pyexc + rat" where
  "get_current_activity_multiplier st now =
     (let current_hour = hour_of now in
      if nat current_hour < length (daily_pattern st) then
        (let base_multiplier = daily_pattern st ! nat current_hour;
             base_multiplier =
               (if is_weekend now \<and> weekend_mode st then base_multiplier * weekend_reduction st
                else base_multiplier);
             base_multiplier = (if burst_mode st then base_multiplier * 1.5 else base_multiplier)
         in Inr base_multiplier)
      else Inl IndexError)"

text \<open>\<^verbatim>\<open>_calculate_dynamic_delay\<close>.\<close>

definition calculate_dynamic_delay ::
  "rate_limiter \<Rightarrow> datetime \<Rightarrow> string \<Rightarrow> pyexc + (rat \<times> rat)" where
  "calculate_dynamic_delay st now action_type =
     (case delay_between_actions st of (base_min, base_max) \<Rightarrow>
      (case get_current_activity_multiplier st now of
         Inl e \<Rightarrow> Inl e
       | Inr activity_multiplier \<Rightarrow>
          (case get_actions_in_timeframe st now 1 None of
             Inl e \<Rightarrow> Inl e
           | Inr recent_actions \<Rightarrow>
              (let multiplier =
                     (if (of_int recent_actions :: rat) > of_int (max_actions_per_hour st) * 0.8
                      then 1.5
                      else if (of_int recent_actions :: rat) < of_int (max_actions_per_hour st) * 0.2
                      then 0.7
                      else 1.0);
                   multiplier = multiplier * (2.0 - activity_multiplier);
                   min_delay = base_min * multiplier;
                   max_delay = base_max * multiplier;
                   min_delay = max 10 min_delay;
                   max_delay = min 1800 max_delay
               in Inr (min_delay, max_delay)))))"

text \<open>
  \<^verbatim>\<open>random.uniform(a, b)\<close> is \<^verbatim>\<open>a + (b - a) * random()\<close>; \<open>r\<close> is the value of
  \<^verbatim>\<open>random()\<close>. \<^verbatim>\<open>human_like_delay\<close> of \<^verbatim>\<open>utils.py\<close> returns here the time it
  sleeps.
\<close>

definition uniform :: "rat \<Rightarrow> rat \<Rightarrow> rat \<Rightarrow> rat" where
  "uniform a b r = a + (b - a) * r"

definition human_like_delay :: "rat \<Rightarrow> rat \<Rightarrow> rat \<Rightarrow> rat" where
  "human_like_delay base_delay variance r =
     (let delay = base_delay * (1 + uniform (- variance) variance r) in max 0.1 delay)"

text \<open>
  \<^verbatim>\<open>wait_after_error\<close>: \<open>after_error_range\<close> is the pair \<^verbatim>\<open>(min_delay, max_delay)\<close>
  that the source hands to \<^verbatim>\<open>random.uniform\<close>; the result of \<open>wait_after_error\<close> is
  the time slept.
\<close>

definition after_error_range :: "rate_limiter \<Rightarrow> rat \<times> rat" where
  "after_error_range st =
     (case delay_after_error st of (min_delay, max_delay) \<Rightarrow>
        (let multiplier = 1.0 + of_int (consecutive_errors st) * 0.5
         in (min_delay * multiplier, max_delay * multiplier)))"

definition wait_after_error :: "rate_limiter \<Rightarrow> rat \<Rightarrow> rat \<Rightarrow> rat" where
  "wait_after_error st r1 r2 =
     (case after_error_range st of (min_delay, max_delay) \<Rightarrow>
        human_like_delay (uniform min_delay max_delay r1) 0.1 r2)"

section \<open>Permission check\<close>

text \<open>
  The loop over the quiet periods of \<^verbatim>\<open>can_perform_action\<close>. \<open>skip k\<close> is the outcome
  of the \<open>k\<close>-th evaluation of \<^verbatim>\<open>random.random() < 0.7\<close> in the call. The result is
  \<open>True\<close> when the loop leaves the function with \<^verbatim>\<open>return False\<close>.
\<close>

fun quiet_loop :: "(int \<times> int) list \<Rightarrow> int \<Rightarrow> (nat \<Rightarrow> bool) \<Rightarrow> nat \<Rightarrow> bool" where
  "quiet_loop [] current_hour skip k = False"
| "quiet_loop ((quiet_start, quiet_end) # rest) current_hour skip k =
     (if quiet_start > quiet_end then
        (if current_hour \<ge> quiet_start \<or> current_hour \<le> quiet_end then
           (if skip k then True else quiet_loop rest current_hour skip (Suc k))
         else quiet_loop rest current_hour skip k)
      else
        (if quiet_start \<le> current_hour \<and> current_hour \<le> quiet_end then
           (if skip k then True else quiet_loop rest current_hour skip (Suc k))
         else quiet_loop rest current_hour skip k))"

text \<open>
  \<^verbatim>\<open>can_perform_action\<close> returns its answer and the limiter, whose error counter the
  check may have reset. An exception inside the \<^verbatim>\<open>try\<close> block is answered by
  \<open>False\<close>.
\<close>

definition can_perform_action ::
  "rate_limiter \<Rightarrow> datetime \<Rightarrow> (nat \<Rightarrow> bool) \<Rightarrow> string \<Rightarrow> bool \<times> rate_limiter" where
  "can_perform_action st now skip action_type =
     (if consecutive_errors st \<ge> 5 \<and>
         (case last_error_time st of
            None \<Rightarrow> False
          | Some t \<Rightarrow> now - t < 30 * 60 * 1000000)
      then (False, st)
      else
        (let st = (if consecutive_errors st \<ge> 5 then st\<lparr>consecutive_errors := 0\<rparr> else st) in
         (case get_actions_in_timeframe st now 24 None of
            Inl e \<Rightarrow> (False, st)
          | Inr daily_actions \<Rightarrow>
             if daily_actions \<ge> max_actions_per_day st then (False, st)
             else
               (case get_actions_in_timeframe st now 1 None of
                  Inl e \<Rightarrow> (False, st)
                | Inr hourly_actions \<Rightarrow>
                   if hourly_actions \<ge> max_actions_per_hour st then (False, st)
                   else
                     (case
                        (if action_type = ''like'' then
                           (case get_actions_in_timeframe st now 1 (Some ''like'') of
                              Inl e \<Rightarrow> Inl e
                            | Inr hourly_likes \<Rightarrow> Inr (hourly_likes \<ge> max_likes_per_hour st))
                         else if action_type = ''reply'' then
                           (case get_actions_in_timeframe st now 1 (Some ''reply'') of
                              Inl e \<Rightarrow> Inl e
                            | Inr hourly_replies \<Rightarrow> Inr (hourly_replies \<ge> max_replies_per_hour st))
                         else if action_type = ''retweet'' then
                           (case get_actions_in_timeframe st now 1 (Some ''retweet'') of
                              Inl e \<Rightarrow> Inl e
                            | Inr hourly_retweets \<Rightarrow>
                               Inr (hourly_retweets \<ge> max_retweets_per_hour st))
                         else Inr False)
                      of
                        Inl e \<Rightarrow> (False, st)
                      | Inr limit_reached \<Rightarrow>
                         if limit_reached then (False, st)
                         else (\<not> quiet_loop (quiet_periods st) (hour_of now) skip 0, st))))))"

section \<open>The persisted action log\<close>

text \<open>
  The file behind \<^verbatim>\<open>actions_log_file\<close>: absent, not readable as JSON, or holding a value
  that \<^verbatim>\<open>json.load\<close> returns. \<open>writable\<close> says whether \<^verbatim>\<open>open(path, 'w')\<close>
  succeeds. \<open>save_calls\<close> is instrumentation: the number of times
  \<^verbatim>\<open>_save_actions_history\<close> has been entered.
\<close>

datatype store = Missing | Corrupt | Parsed pyval

record world =
  log_file :: store
  writable :: bool
  save_calls :: nat

text \<open>What \<^verbatim>\<open>json.dump\<close> accepts: everything but a datetime.\<close>

fun json_serialisable :: "pyval \<Rightarrow> bool" where
  "json_serialisable (PDatetime t) = False"
| "json_serialisable (PList xs) = (\<forall>x \<in> set xs. json_serialisable x)"
| "json_serialisable (PDict d) = (\<forall>v \<in> snd ` set d. json_serialisable v)"
| "json_serialisable v = True"

text \<open>\<^verbatim>\<open>load_json_file\<close> and \<^verbatim>\<open>save_json_file\<close> of \<^verbatim>\<open>utils.py\<close>.\<close>

definition load_json_file :: "world \<Rightarrow> pyval \<Rightarrow> pyval" where
  "load_json_file w dflt = (case log_file w of Parsed data \<Rightarrow> data | _ \<Rightarrow> dflt)"

definition save_json_file :: "world \<Rightarrow> pyval \<Rightarrow> bool \<times> world" where
  "save_json_file w data =
     (if \<not> writable w then (False, w)
      else if json_serialisable data then (True, w\<lparr>log_file := Parsed data\<rparr>)
      else (False, w\<lparr>log_file := Corrupt\<rparr>))"

text \<open>\<^verbatim>\<open>parse_timestamp\<close> of \<^verbatim>\<open>utils.py\<close>: any exception gives None.\<close>

definition parse_timestamp :: "pylib \<Rightarrow> pyval \<Rightarrow> stamp option" where
  "parse_timestamp L v = (case v of PStr s \<Rightarrow> fromisoformat L s | _ \<Rightarrow> None)"

text \<open>\<^verbatim>\<open>_save_actions_history\<close>.\<close>

fun save_loop :: "pylib \<Rightarrow> pydict list \<Rightarrow> pyexc + pyval list" where
  "save_loop L [] = Inr []"
| "save_loop L (action # rest) =
     (case subscript action ''timestamp'' of
        Inl e \<Rightarrow> Inl e
      | Inr ts \<Rightarrow>
         (let action_copy =
                (case ts of
                   PDatetime t \<Rightarrow> AList.update ''timestamp'' (PStr (isoformat L t)) action
                 | _ \<Rightarrow> action)
          in case save_loop L rest of
               Inl e \<Rightarrow> Inl e
             | Inr actions \<Rightarrow> Inr (PDict action_copy # actions)))"

definition save_actions_history :: "pylib \<Rightarrow> rate_limiter \<Rightarrow> world \<Rightarrow> datetime \<Rightarrow> world" where
  "save_actions_history L st w now =
     (let w = w\<lparr>save_calls := save_calls w + 1\<rparr> in
      case save_loop L (actions_history st) of
        Inl e \<Rightarrow> w
      | Inr actions \<Rightarrow>
         snd (save_json_file w
           (PDict [(''actions'', PList actions),
                   (''last_updated'', PStr (isoformat L (Naive now))),
                   (''total_actions'', PInt (int (length actions)))])))"

text \<open>\<^verbatim>\<open>_load_actions_history\<close>.\<close>

text \<open>What \<^verbatim>\<open>for action in actions\<close> iterates over.\<close>

definition py_iter :: "pyval \<Rightarrow> pyexc + pyval list" where
  "py_iter v =
     (case v of
        PList xs \<Rightarrow> Inr xs
      | PStr s \<Rightarrow> Inr (map (\<lambda>c. PStr [c]) s)
      | PDict d \<Rightarrow> Inr (map (\<lambda>kv. PStr (fst kv)) d)
      | _ \<Rightarrow> Inl TypeError)"

text \<open>
  The loop returns the history as far as it got, and the exception that stopped it.
\<close>

fun load_loop :: "pylib \<Rightarrow> pyval list \<Rightarrow> pydict list \<Rightarrow> pydict list \<times> pyexc option" where
  "load_loop L [] hist = (hist, None)"
| "load_loop L (action # rest) hist =
     (case action of
        PDict d \<Rightarrow>
          (let timestamp_str = dict_get d ''timestamp'' PNone in
           if truthy timestamp_str then
             (case parse_timestamp L timestamp_str of
                Some timestamp \<Rightarrow>
                  load_loop L rest
                    (deque_append hist (AList.update ''timestamp'' (PDatetime timestamp) d))
              | None \<Rightarrow> load_loop L rest hist)
           else load_loop L rest hist)
      | _ \<Rightarrow> (hist, Some AttributeError))"

fun cleanup :: "pydict list \<Rightarrow> datetime \<Rightarrow> pyexc + pydict list" where
  "cleanup [] cutoff = Inr []"
| "cleanup (action # rest) cutoff =
     (case subscript action ''timestamp'' of
        Inl e \<Rightarrow> Inl e
      | Inr ts \<Rightarrow>
         (case py_gt ts cutoff of
            Inl e \<Rightarrow> Inl e
          | Inr newer \<Rightarrow>
             (case cleanup rest cutoff of
                Inl e \<Rightarrow> Inl e
              | Inr kept \<Rightarrow> Inr (if newer then action # kept else kept))))"

text \<open>
  The body of the \<^verbatim>\<open>try\<close> block: the limiter as the body left it, and the exception
  it raised, if any.
\<close>

definition load_actions_history_body ::
  "pylib \<Rightarrow> rate_limiter \<Rightarrow> world \<Rightarrow> datetime \<Rightarrow> rate_limiter \<times> pyexc option" where
  "load_actions_history_body L st w now =
     (let data = load_json_file w (PDict []) in
      if \<not> truthy data then (st, None)
      else
        (case data of
           PDict d \<Rightarrow>
             (case py_iter (dict_get d ''actions'' (PList [])) of
                Inl e \<Rightarrow> (st, Some e)
              | Inr actions \<Rightarrow>
                 (case load_loop L actions (actions_history st) of
                    (hist, Some e) \<Rightarrow> (st\<lparr>actions_history := hist\<rparr>, Some e)
                  | (hist, None) \<Rightarrow>
                     (case cleanup hist (now - timedelta_days 7) of
                        Inl e \<Rightarrow> (st\<lparr>actions_history := hist\<rparr>, Some e)
                      | Inr kept \<Rightarrow> (st\<lparr>actions_history := deque_of kept\<rparr>, None))))
         | _ \<Rightarrow> (st, Some AttributeError)))"

text \<open>
  The whole function: \<^verbatim>\<open>except Exception\<close> logs and returns, so the caller gets the
  limiter in every case. \<open>Raises\<close> is the outcome the handler leaves no way to.
\<close>

datatype 'a outcome = Returns 'a | Raises pyexc

definition load_actions_history ::
  "pylib \<Rightarrow> rate_limiter \<Rightarrow> world \<Rightarrow> datetime \<Rightarrow> rate_limiter outcome" where
  "load_actions_history L st w now =
     (case load_actions_history_body L st w now of
        (st', None) \<Rightarrow> Returns st'
      | (st', Some e) \<Rightarrow> Returns st')"

section \<open>Recording an action\<close>

text \<open>\<^verbatim>\<open>record_action\<close>; \<^verbatim>\<open>metadata or {}\<close> turns None into the empty dictionary.\<close>

definition record_action ::
  "pylib \<Rightarrow> rate_limiter \<Rightarrow> world \<Rightarrow> datetime \<Rightarrow> string \<Rightarrow> bool \<Rightarrow> pydict option
     \<Rightarrow> rate_limiter \<times> world" where
  "record_action L st w now action_type success metadata =
     (let action = [(''type'', PStr action_type),
                    (''success'', PBool success),
                    (''timestamp'', PDatetime (Naive now)),
                    (''metadata'', PDict (case metadata of None \<Rightarrow> [] | Some m \<Rightarrow> m))];
          st = st\<lparr>actions_history := deque_append (actions_history st) action\<rparr>;
          st = (if \<not> success
                then st\<lparr>consecutive_errors := consecutive_errors st + 1,
                        last_error_time := Some now\<rparr>
                else st\<lparr>consecutive_errors := 0, last_error_time := None\<rparr>);
          w = (if length (actions_history st) mod 10 = 0
               then save_actions_history L st w now else w)
      in (st, w))"

section \<open>Construction and sequences of calls\<close>

text \<open>
  The limiter that \<^verbatim>\<open>__init__\<close> builds from an empty configuration (every
  \<^verbatim>\<open>config.get\<close> gives its default), before it loads the history. \<open>rnd\<close> feeds
  \<^verbatim>\<open>_generate_daily_pattern\<close>.
\<close>

definition init_limiter :: "(nat \<Rightarrow> rat) \<Rightarrow> rate_limiter" where
  "init_limiter rnd =
     \<lparr>max_actions_per_hour = 12, max_actions_per_day = 100, max_likes_per_hour = 8,
      max_replies_per_hour = 3, max_retweets_per_hour = 2, actions_history = [],
      delay_between_actions = (60, 600), delay_after_error = (900, 1800),
      weekend_mode = True, weekend_reduction = 0.5, consecutive_errors = 0,
      last_error_time = None, burst_mode = False, quiet_periods = [(23, 6), (12, 13)],
      daily_pattern = generate_daily_pattern rnd\<rparr>"

text \<open>
  A caller's sequence of \<^verbatim>\<open>record_action\<close> calls, each with the clock value of the
  call, the action type, the success flag and the metadata.
\<close>

fun record_actions ::
  "pylib \<Rightarrow> rate_limiter \<Rightarrow> world \<Rightarrow> (datetime \<times> string \<times> bool \<times> pydict option) list
     \<Rightarrow> rate_limiter \<times> world" where
  "record_actions L st w [] = (st, w)"
| "record_actions L st w ((now, action_type, success, metadata) # calls) =
     (case record_action L st w now action_type success metadata of
        (st', w') \<Rightarrow> record_actions L st' w' calls)"

section \<open>Notions used in the statements and proofs\<close>

text \<open>
  What one iteration of the counting loop decides about a record: whether it is counted,
  or the exception it raises.
\<close>

definition qualifies :: "pydict \<Rightarrow> datetime \<Rightarrow> string option \<Rightarrow> pyexc + bool" where
  "qualifies action cutoff action_type =
     (case subscript action ''timestamp'' of
        Inl e \<Rightarrow> Inl e
      | Inr ts \<Rightarrow>
         (case py_gt ts cutoff of
            Inl e \<Rightarrow> Inl e
          | Inr newer \<Rightarrow>
             if newer then
               (case action_type of
                  None \<Rightarrow> Inr True
                | Some ty \<Rightarrow>
                   (case subscript action ''type'' of
                      Inl e \<Rightarrow> Inl e
                    | Inr v \<Rightarrow> Inr (v = PStr ty)))
             else Inr False))"

text \<open>A count that was computed and lies below its cap.\<close>

definition within_cap :: "pyexc + int \<Rightarrow> int \<Rightarrow> bool" where
  "within_cap r cap = (case r of Inl e \<Rightarrow> False | Inr n \<Rightarrow> n < cap)"

text \<open>The hourly cap of a tracked sub-type; the other action types have none.\<close>

definition type_cap :: "rate_limiter \<Rightarrow> string \<Rightarrow> int option" where
  "type_cap st action_type =
     (if action_type = ''like'' then Some (max_likes_per_hour st)
      else if action_type = ''reply'' then Some (max_replies_per_hour st)
      else if action_type = ''retweet'' then Some (max_retweets_per_hour st)
      else None)"

text \<open>Five or more errors in a row, the last one less than 30 minutes ago.\<close>

definition in_cooldown :: "rate_limiter \<Rightarrow> datetime \<Rightarrow> bool" where
  "in_cooldown st now =
     (consecutive_errors st \<ge> 5 \<and>
      (case last_error_time st of None \<Rightarrow> False | Some t \<Rightarrow> now - t < 1800000000))"

text \<open>
  The checks of \<^verbatim>\<open>can_perform_action\<close> other than the error cooldown: the daily,
  hourly and per-type counts are computed and below their caps, and no quiet period
  suppresses the action.
\<close>

definition no_other_limit :: "rate_limiter \<Rightarrow> datetime \<Rightarrow> (nat \<Rightarrow> bool) \<Rightarrow> string \<Rightarrow> bool" where
  "no_other_limit st now skip action_type =
     (within_cap (get_actions_in_timeframe st now 24 None) (max_actions_per_day st) \<and>
      within_cap (get_actions_in_timeframe st now 1 None) (max_actions_per_hour st) \<and>
      (case type_cap st action_type of
         None \<Rightarrow> True
       | Some cap \<Rightarrow> within_cap (get_actions_in_timeframe st now 1 (Some action_type)) cap) \<and>
      \<not> quiet_loop (quiet_periods st) (hour_of now) skip 0)"

text \<open>
  The dictionary that \<^verbatim>\<open>record_action\<close> builds for an action of the given type,
  success flag, timestamp and metadata.
\<close>

definition action_dict :: "string \<times> bool \<times> datetime \<times> pydict \<Rightarrow> pydict" where
  "action_dict r =
     (case r of (action_type, success, t, metadata) \<Rightarrow>
        [(''type'', PStr action_type), (''success'', PBool success),
         (''timestamp'', PDatetime (Naive t)), (''metadata'', PDict metadata)])"

text \<open>The record that a call of \<^verbatim>\<open>record_action\<close> appends, from the call's arguments.\<close>

definition call_record ::
  "datetime \<times> string \<times> bool \<times> pydict option \<Rightarrow> string \<times> bool \<times> datetime \<times> pydict" where
  "call_record c =
     (case c of (now, action_type, success, metadata) \<Rightarrow>
        (action_type, success, now, case metadata of None \<Rightarrow> [] | Some m \<Rightarrow> m))"

text \<open>Two limiters with the same configuration and pacing state.\<close>

definition same_config :: "rate_limiter \<Rightarrow> rate_limiter \<Rightarrow> bool" where
  "same_config st st' =
     (max_actions_per_hour st' = max_actions_per_hour st \<and>
      max_actions_per_day st' = max_actions_per_day st \<and>
      max_likes_per_hour st' = max_likes_per_hour st \<and>
      max_replies_per_hour st' = max_replies_per_hour st \<and>
      max_retweets_per_hour st' = max_retweets_per_hour st \<and>
      delay_between_actions st' = delay_between_actions st \<and>
      delay_after_error st' = delay_after_error st \<and>
      weekend_mode st' = weekend_mode st \<and>
      weekend_reduction st' = weekend_reduction st \<and>
      burst_mode st' = burst_mode st \<and>
      quiet_periods st' = quiet_periods st \<and>
      daily_pattern st' = daily_pattern st)"

text \<open>
  The load factor of \<^verbatim>\<open>_calculate_dynamic_delay\<close> in integer terms: more than 80% of the
  hourly cap, less than 20% of it, or in between.
\<close>

definition load_factor :: "int \<Rightarrow> int \<Rightarrow> rat" where
  "load_factor recent_actions cap =
     (if 5 * recent_actions > 4 * cap then 3 / 2
      else if 5 * recent_actions < cap then 7 / 10
      else 1)"

text \<open>
  The delay range as the specification words it: the factor 1.5 from 80% of the cap on,
  and both bounds clamped into the interval from 10 to 1800 seconds.
\<close>

definition claimed_load_factor :: "int \<Rightarrow> int \<Rightarrow> rat" where
  "claimed_load_factor recent_actions cap =
     (if 5 * recent_actions \<ge> 4 * cap then 3 / 2
      else if 5 * recent_actions < cap then 7 / 10
      else 1)"

definition claimed_dynamic_delay :: "rat \<times> rat \<Rightarrow> int \<Rightarrow> int \<Rightarrow> rat \<Rightarrow> rat \<times> rat" where
  "claimed_dynamic_delay base recent_actions cap activity_multiplier =
     (let m = claimed_load_factor recent_actions cap * (2 - activity_multiplier)
      in (max 10 (min 1800 (fst base * m)), max 10 (min 1800 (snd base * m))))"

text \<open>A persisted record that is a JSON object.\<close>

definition is_dict :: "pyval \<Rightarrow> bool" where
  "is_dict v = (case v of PDict d \<Rightarrow> True | _ \<Rightarrow> False)"

text \<open>
  What the loading loop makes of one persisted record that is an object: the record with
  its timestamp parsed, or nothing when the timestamp is missing, empty or does not parse.
\<close>

definition load_record :: "pylib \<Rightarrow> pyval \<Rightarrow> pydict option" where
  "load_record L v =
     (case v of
        PDict d \<Rightarrow>
          (if truthy (dict_get d ''timestamp'' PNone) then
             (case parse_timestamp L (dict_get d ''timestamp'' PNone) of
                Some t \<Rightarrow> Some (AList.update ''timestamp'' (PDatetime t) d)
              | None \<Rightarrow> None)
           else None)
      | _ \<Rightarrow> None)"

text \<open>The timestamp of an in-memory record, when it is a naive datetime.\<close>

definition action_time :: "pydict \<Rightarrow> datetime option" where
  "action_time a =
     (case map_of a ''timestamp'' of Some (PDatetime (Naive t)) \<Rightarrow> Some t | _ \<Rightarrow> None)"

text \<open>The record is kept by the retention filter: its timestamp is later than the cutoff.\<close>

definition newer_than :: "datetime \<Rightarrow> pydict \<Rightarrow> bool" where
  "newer_than cutoff a = (case action_time a of Some t \<Rightarrow> t > cutoff | None \<Rightarrow> False)"

text \<open>
  What the loader's cleanup leaves of the loaded records: those later than the cutoff when
  every timestamp is a naive datetime; all of them when the comparison raises (an aware
  timestamp), since the handler then returns before the history is replaced.
\<close>

definition retained :: "datetime \<Rightarrow> pydict list \<Rightarrow> pydict list" where
  "retained cutoff H =
     (if list_all (\<lambda>a. action_time a \<noteq> None) H then filter (newer_than cutoff) H else H)"

text \<open>
  An instance of the two library functions on four timestamps, with the strings that
  Python prints and reads for them; it serves to evaluate the model on concrete inputs.
\<close>

definition iso_table :: "(stamp \<times> string) list" where
  "iso_table =
     [(Naive 63871750800000000, ''2025-01-06T09:00:00''),
      (Naive 63871751400000000, ''2025-01-06T09:10:00''),
      (Naive 63868640400000000, ''2024-12-01T09:00:00''),
      (Aware 63868640400000000 0, ''2024-12-01T09:00:00+00:00'')]"

definition table_lib :: pylib where
  "table_lib =
     \<lparr>isoformat = (\<lambda>t. case map_of iso_table t of Some s \<Rightarrow> s | None \<Rightarrow> []),
      fromisoformat = (\<lambda>s. map_of (map (\<lambda>(t, s). (s, t)) iso_table) s)\<rparr>"




section \<open>Lemmas on counting and on the permission check\<close>

lemma count_loop_Cons:
  "count_loop (a # rest) c ty n =
     (case qualifies a c ty of
        Inl e \<Rightarrow> Inl e
      | Inr b \<Rightarrow> count_loop rest c ty (if b then n + 1 else n))"
  by (simp add: qualifies_def split: sum.splits option.splits)

lemma count_loop_append:
  "count_loop (xs @ ys) c ty n =
     (case count_loop xs c ty n of Inl e \<Rightarrow> Inl e | Inr m \<Rightarrow> count_loop ys c ty m)"
proof (induction xs arbitrary: n)
  case Nil
  then show ?case by simp
next
  case (Cons a xs)
  show ?case
    by (cases "qualifies a c ty") (simp_all only: append_Cons count_loop_Cons sum.case Cons.IH)
qed

lemma count_loop_ge: "count_loop xs c ty n = Inr m \<Longrightarrow> n \<le> m"
proof (induction xs arbitrary: n)
  case Nil
  then show ?case by simp
next
  case (Cons a xs)
  show ?case
  proof (cases "qualifies a c ty")
    case (Inl e)
    with Cons.prems show ?thesis by (simp only: count_loop_Cons sum.case) simp
  next
    case (Inr b)
    with Cons.prems have "count_loop xs c ty (if b then n + 1 else n) = Inr m"
      by (simp only: count_loop_Cons sum.case)
    from Cons.IH [OF this] show ?thesis by (simp split: if_splits)
  qed
qed

lemma within_cap_extend:
  "within_cap (count_loop (xs @ ys) c ty 0) cap \<Longrightarrow> within_cap (count_loop xs c ty 0) cap"
  unfolding within_cap_def
  by (auto simp: count_loop_append split: sum.splits dest: count_loop_ge)

lemma timeframe_errors_irrelevant [simp]:
  "get_actions_in_timeframe (st\<lparr>consecutive_errors := n\<rparr>) now h ty =
   get_actions_in_timeframe st now h ty"
  by (simp add: get_actions_in_timeframe_def)

lemma type_cap_history [simp]:
  "type_cap (st\<lparr>actions_history := H\<rparr>) ty = type_cap st ty"
  by (simp add: type_cap_def)

lemma in_cooldown_history [simp]:
  "in_cooldown (st\<lparr>actions_history := H\<rparr>) now = in_cooldown st now"
  by (simp add: in_cooldown_def)

lemma timeframe_history [simp]:
  "get_actions_in_timeframe (st\<lparr>actions_history := H\<rparr>) now h ty =
   count_loop H (now - timedelta_hours h) ty 0"
  by (simp add: get_actions_in_timeframe_def)

text \<open>
  The answer of \<^verbatim>\<open>can_perform_action\<close> in one formula: no cooldown, the three counts
  computed and below their caps, and no suppression in a quiet period.
\<close>

lemma can_perform_action_allows:
  "fst (can_perform_action st now skip ty) =
     (\<not> in_cooldown st now \<and>
      within_cap (get_actions_in_timeframe st now 24 None) (max_actions_per_day st) \<and>
      within_cap (get_actions_in_timeframe st now 1 None) (max_actions_per_hour st) \<and>
      (case type_cap st ty of
         None \<Rightarrow> True
       | Some cap \<Rightarrow> within_cap (get_actions_in_timeframe st now 1 (Some ty)) cap) \<and>
      \<not> quiet_loop (quiet_periods st) (hour_of now) skip 0)"
  by (auto simp: can_perform_action_def in_cooldown_def within_cap_def type_cap_def Let_def
      split: sum.splits option.splits)

lemma qualifies_success:
  "qualifies (AList.update ''success'' v a) c ty = qualifies a c ty"
  by (simp add: qualifies_def subscript_def update_conv'
      cong: sum.case_cong option.case_cong if_cong)

lemma count_loop_success:
  "count_loop (map (\<lambda>a. AList.update ''success'' (flag a) a) H) c ty n = count_loop H c ty n"
proof (induction H arbitrary: n)
  case Nil
  then show ?case by simp
next
  case (Cons a H)
  show ?case
    by (simp only: list.map count_loop_Cons qualifies_success Cons.IH)
qed

lemma timeframe_record_action:
  "get_actions_in_timeframe (fst (record_action L st w t aty s md)) now hours ty =
   count_loop
     (deque_append (actions_history st)
        (action_dict (aty, s, t, case md of None \<Rightarrow> [] | Some m \<Rightarrow> m)))
     (now - timedelta_hours hours) ty 0"
  by (simp add: record_action_def get_actions_in_timeframe_def Let_def action_dict_def)

lemma qualifies_action_dict:
  "qualifies (action_dict (aty, s, t, md)) c ty =
     Inr (t > c \<and> (case ty of None \<Rightarrow> True | Some x \<Rightarrow> aty = x))"
  by (cases ty) (simp_all add: qualifies_def action_dict_def subscript_def py_gt_def)

lemma count_loop_snoc:
  "count_loop (xs @ [a]) c ty n =
     (case count_loop xs c ty n of
        Inl e \<Rightarrow> Inl e
      | Inr m \<Rightarrow>
         (case qualifies a c ty of
            Inl e \<Rightarrow> Inl e
          | Inr b \<Rightarrow> Inr (if b then m + 1 else m)))"
  by (simp add: count_loop_append count_loop_Cons del: count_loop.simps(2) cong: sum.case_cong)

section \<open>Lemmas on recording\<close>

lemma record_action_fst:
  "fst (record_action L st w now aty s md) =
     (if s then
        st\<lparr>actions_history := deque_append (actions_history st)
              (action_dict (aty, s, now, case md of None \<Rightarrow> [] | Some m \<Rightarrow> m)),
           consecutive_errors := 0, last_error_time := None\<rparr>
      else
        st\<lparr>actions_history := deque_append (actions_history st)
              (action_dict (aty, s, now, case md of None \<Rightarrow> [] | Some m \<Rightarrow> m)),
           consecutive_errors := consecutive_errors st + 1, last_error_time := Some now\<rparr>)"
  by (simp add: record_action_def Let_def action_dict_def)

lemma record_action_history [simp]:
  "actions_history (fst (record_action L st w now aty s md)) =
     deque_append (actions_history st)
       (action_dict (aty, s, now, case md of None \<Rightarrow> [] | Some m \<Rightarrow> m))"
  by (simp add: record_action_fst)

lemma record_action_errors [simp]:
  "consecutive_errors (fst (record_action L st w now aty s md)) =
     (if s then 0 else consecutive_errors st + 1)"
  "last_error_time (fst (record_action L st w now aty s md)) = (if s then None else Some now)"
  by (simp_all add: record_action_fst)

lemma record_action_config [simp]:
  "max_actions_per_hour (fst (record_action L st w now aty s md)) = max_actions_per_hour st"
  "max_actions_per_day (fst (record_action L st w now aty s md)) = max_actions_per_day st"
  "max_likes_per_hour (fst (record_action L st w now aty s md)) = max_likes_per_hour st"
  "max_replies_per_hour (fst (record_action L st w now aty s md)) = max_replies_per_hour st"
  "max_retweets_per_hour (fst (record_action L st w now aty s md)) = max_retweets_per_hour st"
  "quiet_periods (fst (record_action L st w now aty s md)) = quiet_periods st"
  "delay_after_error (fst (record_action L st w now aty s md)) = delay_after_error st"
  by (simp_all add: record_action_fst)

lemma record_actions_Cons:
  "record_actions L st w ((now, aty, s, md) # calls) =
   record_actions L (fst (record_action L st w now aty s md))
     (snd (record_action L st w now aty s md)) calls"
  by (simp add: case_prod_unfold)

declare record_actions.simps(2) [simp del]

lemma can_perform_action_allows':
  "fst (can_perform_action st now skip ty) = (\<not> in_cooldown st now \<and> no_other_limit st now skip ty)"
  by (simp add: can_perform_action_allows no_other_limit_def)

lemma sum_case_const: "(case x of Inl e \<Rightarrow> c | Inr v \<Rightarrow> c) = c"
  by (cases x) simp_all

lemma snd_sum_case:
  "snd (case x of Inl e \<Rightarrow> f e | Inr v \<Rightarrow> g v) = (case x of Inl e \<Rightarrow> snd (f e) | Inr v \<Rightarrow> snd (g v))"
  by (cases x) simp_all

lemma snd_if: "snd (if c then a else b) = (if c then snd a else snd b)"
  by simp

lemma can_perform_action_state:
  "snd (can_perform_action st now skip ty) =
     (if consecutive_errors st \<ge> 5 \<and> \<not> in_cooldown st now then st\<lparr>consecutive_errors := 0\<rparr>
      else st)"
proof (cases "consecutive_errors st \<ge> 5")
  case True
  then show ?thesis
    by (cases "last_error_time st")
      (simp_all add: can_perform_action_def in_cooldown_def Let_def snd_sum_case snd_if
         sum_case_const cong: sum.case_cong if_cong)
next
  case False
  then show ?thesis
    by (simp add: can_perform_action_def in_cooldown_def Let_def snd_sum_case snd_if
         sum_case_const cong: sum.case_cong if_cong)
qed

lemma count_loop_action_dicts:
  "count_loop (map action_dict rs) c ty n =
     Inr (n + int (length (filter
        (\<lambda>r. fst (snd (snd r)) > c \<and> (case ty of None \<Rightarrow> True | Some x \<Rightarrow> fst r = x)) rs)))"
proof (induction rs arbitrary: n)
  case Nil
  then show ?case by simp
next
  case (Cons r rs)
  obtain aty s t md where r: "r = (aty, s, t, md)" by (cases r) auto
  show ?case
    using Cons.IH [of "n + 1"] Cons.IH [of n]
    by (cases ty)
      (simp_all add: r count_loop_Cons qualifies_action_dict del: count_loop.simps(2))
qed

lemma quiet_loop_no_skip: "\<not> quiet_loop qs h (\<lambda>k. False) k"
  by (induction qs h "\<lambda>k::nat. False" k rule: quiet_loop.induct) simp_all

lemma record_actions_fail_errors:
  "\<forall>c \<in> set calls. \<not> fst (snd (snd c)) \<Longrightarrow>
   consecutive_errors (fst (record_actions L st w calls)) =
     consecutive_errors st + int (length calls)"
proof (induction calls arbitrary: st w)
  case Nil
  then show ?case by simp
next
  case (Cons c calls)
  obtain now aty s md where c: "c = (now, aty, s, md)" by (cases c) auto
  from Cons.prems have s: "\<not> s" and rest: "\<forall>c \<in> set calls. \<not> fst (snd (snd c))"
    by (simp_all add: c)
  show ?case
    by (simp only: c record_actions_Cons Cons.IH [OF rest]) (simp add: s)
qed

lemma record_actions_fail_time:
  "calls \<noteq> [] \<Longrightarrow> \<forall>c \<in> set calls. \<not> fst (snd (snd c)) \<Longrightarrow>
   last_error_time (fst (record_actions L st w calls)) = Some (fst (last calls))"
proof (induction calls arbitrary: st w)
  case Nil
  then show ?case by simp
next
  case (Cons c calls)
  obtain now aty s md where c: "c = (now, aty, s, md)" by (cases c) auto
  from Cons.prems have s: "\<not> s" and rest: "\<forall>c \<in> set calls. \<not> fst (snd (snd c))"
    by (simp_all add: c)
  show ?case
  proof (cases "calls = []")
    case True
    then show ?thesis by (simp add: c s record_actions_Cons)
  next
    case False
    from Cons.IH [OF False rest] False show ?thesis
      by (simp only: c record_actions_Cons) simp
  qed
qed

lemma record_action_same_config:
  "same_config st (fst (record_action L st w now aty s md))"
  by (simp add: same_config_def record_action_fst)

lemma record_actions_same_config:
  "same_config st (fst (record_actions L st w calls))"
proof (induction calls arbitrary: st w)
  case Nil
  then show ?case by (simp add: same_config_def)
next
  case (Cons c calls)
  obtain now aty s md where c: "c = (now, aty, s, md)" by (cases c) auto
  have 1: "same_config st (fst (record_action L st w now aty s md))"
    by (rule record_action_same_config)
  have 2: "same_config (fst (record_action L st w now aty s md))
     (fst (record_actions L (fst (record_action L st w now aty s md))
        (snd (record_action L st w now aty s md)) calls))"
    by (rule Cons.IH)
  from 1 2 show ?case
    by (simp only: c record_actions_Cons) (simp add: same_config_def)
qed

lemma record_actions_history:
  "length (actions_history st) + length calls \<le> maxlen \<Longrightarrow>
   actions_history (fst (record_actions L st w calls)) =
     actions_history st @ map action_dict (map call_record calls)"
proof (induction calls arbitrary: st w)
  case Nil
  then show ?case by simp
next
  case (Cons c calls)
  obtain now aty s md where c: "c = (now, aty, s, md)" by (cases c) auto
  from Cons.prems have lt: "\<not> maxlen \<le> length (actions_history st)" by simp
  have h: "actions_history (fst (record_action L st w now aty s md)) =
      actions_history st @ [action_dict (call_record c)]"
    by (simp add: c call_record_def deque_append_def lt)
  from Cons.prems have
    "length (actions_history (fst (record_action L st w now aty s md))) + length calls \<le> maxlen"
    by (simp only: h) simp
  from Cons.IH [OF this, of "snd (record_action L st w now aty s md)"]
  have "actions_history (fst (record_actions L st w (c # calls))) =
      (actions_history st @ [action_dict (call_record c)]) @
      map action_dict (map call_record calls)"
    by (simp only: c record_actions_Cons h)
  then show ?case by simp
qed

lemma no_other_limit_transfer:
  "same_config st st' \<Longrightarrow> actions_history st' = H \<Longrightarrow>
   no_other_limit st' now skip ty = no_other_limit (st\<lparr>actions_history := H\<rparr>) now skip ty"
  by (simp add: no_other_limit_def same_config_def get_actions_in_timeframe_def type_cap_def)

lemma no_other_limit_record_actions:
  "actions_history st = [] \<Longrightarrow> length calls \<le> maxlen \<Longrightarrow>
   no_other_limit (fst (record_actions L st w calls)) now skip ty =
   no_other_limit (st\<lparr>actions_history := map action_dict (map call_record calls)\<rparr>) now skip ty"
  by (rule no_other_limit_transfer [OF record_actions_same_config])
    (simp add: record_actions_history)

lemma like_scenario:
  fixes L rnd w t0 skip
  defines "st2 \<equiv> fst (record_actions L ((init_limiter rnd)\<lparr>max_likes_per_hour := 2\<rparr>) w
          [(t0, ''like'', True, None), (t0, ''like'', True, None)])"
  shows "\<not> fst (can_perform_action st2 (t0 + timedelta_minutes 10) skip ''like'') \<and>
     fst (can_perform_action st2 (t0 + timedelta_minutes 61) skip ''like'') =
       (\<not> quiet_loop [(23, 6), (12, 13)] (hour_of (t0 + timedelta_minutes 61)) skip 0)"
proof -
  have c: "\<And>now. \<not> in_cooldown st2 now"
    by (simp add: st2_def in_cooldown_def record_actions_Cons)
  have n: "\<And>now. no_other_limit st2 now skip ''like'' =
      no_other_limit ((init_limiter rnd)\<lparr>max_likes_per_hour := 2, actions_history :=
        map action_dict (map call_record
          [(t0, ''like'', True, None), (t0, ''like'', True, None)])\<rparr>) now skip ''like''"
    unfolding st2_def
    by (subst no_other_limit_record_actions) (simp_all add: init_limiter_def maxlen_def)
  show ?thesis
    unfolding can_perform_action_allows' n
    by (simp add: c no_other_limit_def within_cap_def type_cap_def get_actions_in_timeframe_def
        count_loop_Cons qualifies_action_dict
        call_record_def timedelta_minutes_def timedelta_hours_def init_limiter_def
        del: count_loop.simps(2))
qed

section \<open>Lemmas on pacing\<close>

lemma threshold_high: "(of_int r > (of_int c :: rat) * (8 / 10)) = (5 * r > 4 * c)"
proof -
  have "(of_int r > (of_int c :: rat) * (8 / 10)) = ((of_int (5 * r) :: rat) > of_int (4 * c))"
    by (simp add: field_simps)
  then show ?thesis by (simp only: of_int_less_iff)
qed

lemma threshold_low: "(of_int r < (of_int c :: rat) * (2 / 10)) = (5 * r < c)"
proof -
  have "(of_int r < (of_int c :: rat) * (2 / 10)) = ((of_int (5 * r) :: rat) < of_int c)"
    by (simp add: field_simps)
  then show ?thesis by (simp only: of_int_less_iff)
qed

lemma calculate_dynamic_delay_value:
  "get_current_activity_multiplier st now = Inr am \<Longrightarrow>
   get_actions_in_timeframe st now 1 None = Inr recent \<Longrightarrow>
   calculate_dynamic_delay st now ty =
     Inr (max 10 (fst (delay_between_actions st) *
                    (load_factor recent (max_actions_per_hour st) * (2 - am))),
          min 1800 (snd (delay_between_actions st) *
                    (load_factor recent (max_actions_per_hour st) * (2 - am))))"
  by (simp add: calculate_dynamic_delay_def case_prod_unfold Let_def load_factor_def
      threshold_high threshold_low)

lemma demo_activity:
  "get_current_activity_multiplier
     ((init_limiter (\<lambda>h. 1 / 2))\<lparr>max_actions_per_hour := 5, actions_history := H\<rparr>)
     63871754460000000 = Inr 1"
  by (simp add: get_current_activity_multiplier_def init_limiter_def hour_of_def is_weekend_def
      weekday_def generate_daily_pattern_def hour_multiplier_def Let_def)


text \<open>
  Monday 2025-01-06 at 20:00 with burst mode on and no recent action: the activity
  multiplier is 2.7, the range is scaled by a negative number, and the upper bound that
  comes back is below 10 seconds.
\<close>

lemma dynamic_delay_upper_bound_below_ten:
  "calculate_dynamic_delay ((init_limiter (\<lambda>h. 1 / 2))\<lparr>burst_mode := True\<rparr>)
     63871790400000000 ''like'' = Inr (10, - 294)"
proof -
  have a: "get_current_activity_multiplier ((init_limiter (\<lambda>h. 1 / 2))\<lparr>burst_mode := True\<rparr>)
      63871790400000000 = Inr (27 / 10)"
    by (simp add: get_current_activity_multiplier_def init_limiter_def hour_of_def is_weekend_def
        weekday_def generate_daily_pattern_def hour_multiplier_def Let_def)
  have r: "get_actions_in_timeframe ((init_limiter (\<lambda>h. 1 / 2))\<lparr>burst_mode := True\<rparr>)
      63871790400000000 1 None = Inr 0"
    by (simp add: get_actions_in_timeframe_def init_limiter_def)
  from calculate_dynamic_delay_value [OF a r, of "''like''"] show ?thesis
    by (simp add: load_factor_def init_limiter_def)
qed

section \<open>Lemmas on persistence\<close>

lemma save_json_file_calls [simp]:
  "save_calls (snd (save_json_file w data)) = save_calls w"
  by (simp add: save_json_file_def)

lemma save_actions_history_calls:
  "save_calls (save_actions_history L st w now) = save_calls w + 1"
  by (simp add: save_actions_history_def Let_def split: sum.splits)

lemma record_action_snd:
  "snd (record_action L st w now aty s md) =
     (if length (actions_history (fst (record_action L st w now aty s md))) mod 10 = 0
      then save_actions_history L (fst (record_action L st w now aty s md)) w now
      else w)"
  by (simp add: record_action_def Let_def action_dict_def)

lemma record_action_save_calls:
  "save_calls (snd (record_action L st w now aty s md)) =
     save_calls w +
       (if length (deque_append (actions_history st)
             (action_dict (aty, s, now, case md of None \<Rightarrow> [] | Some m \<Rightarrow> m))) mod 10 = 0
        then 1 else 0)"
  by (simp add: record_action_snd save_actions_history_calls)

lemma div10_step:
  "(Suc n) div 10 - n div 10 = (if Suc n mod 10 = 0 then 1 else (0::nat))"
  by (simp add: div_Suc mod_Suc)

lemma record_actions_save_calls:
  "length (actions_history st) + length calls \<le> maxlen \<Longrightarrow>
   save_calls (snd (record_actions L st w calls)) =
     save_calls w +
       ((length (actions_history st) + length calls) div 10 - length (actions_history st) div 10)"
proof (induction calls arbitrary: st w)
  case Nil
  then show ?case by simp
next
  case (Cons c calls)
  obtain now aty s md where c: "c = (now, aty, s, md)" by (cases c) auto
  let ?st = "fst (record_action L st w now aty s md)"
  let ?w = "snd (record_action L st w now aty s md)"
  let ?n = "length (actions_history st)"
  from Cons.prems have lt: "\<not> maxlen \<le> ?n" by simp
  have len: "length (actions_history ?st) = Suc ?n"
    by (simp add: deque_append_def lt)
  have sc: "save_calls ?w = save_calls w + (Suc ?n div 10 - ?n div 10)"
    by (simp add: record_action_save_calls deque_append_def lt div10_step)
  from Cons.prems have "length (actions_history ?st) + length calls \<le> maxlen"
    by (simp only: len) simp
  from Cons.IH [OF this, of ?w]
  have "save_calls (snd (record_actions L st w (c # calls))) =
      save_calls ?w + ((Suc ?n + length calls) div 10 - Suc ?n div 10)"
    by (simp only: c record_actions_Cons len)
  moreover have "?n div 10 \<le> Suc ?n div 10" "Suc ?n div 10 \<le> (Suc ?n + length calls) div 10"
    by (simp_all add: div_le_mono)
  ultimately show ?case
    by (simp add: sc)
qed


text \<open>Once the history holds 10000 records, every further record triggers a save.\<close>

lemma full_history_saves_every_record:
  "length (actions_history st) = maxlen \<Longrightarrow>
   save_calls (snd (record_action L st w now aty s md)) = save_calls w + 1"
  by (simp add: record_action_save_calls deque_append_def) (simp add: maxlen_def)

lemma deque_append_room:
  "length xs < maxlen \<Longrightarrow> deque_append xs x = xs @ [x]"
  by (simp add: deque_append_def)

lemma deque_of_room: "length xs \<le> maxlen \<Longrightarrow> deque_of xs = xs"
  by (simp add: deque_of_def)

lemma load_loop_dict:
  "load_loop L (PDict d # rest) hist =
     (case load_record L (PDict d) of
        None \<Rightarrow> load_loop L rest hist
      | Some a \<Rightarrow> load_loop L rest (deque_append hist a))"
  by (simp add: load_record_def Let_def split: option.splits)

lemma load_loop_skip:
  "parse_timestamp L (dict_get bad ''timestamp'' PNone) = None \<Longrightarrow>
   load_loop L (xs @ PDict bad # ys) hist = load_loop L (xs @ ys) hist"
proof (induction xs arbitrary: hist)
  case Nil
  then show ?case by (simp add: Let_def)
next
  case (Cons x xs)
  show ?case
  proof (cases x)
    case (PDict d)
    show ?thesis
      by (simp only: PDict append_Cons load_loop_dict Cons.IH [OF Cons.prems])
  qed simp_all
qed

lemma length_map_filter_le: "length (List.map_filter f xs) \<le> length xs"
  by (induction xs) (simp_all add: List.map_filter_simps split: option.splits)

lemma load_loop_all_dicts:
  "list_all is_dict acts \<Longrightarrow> length hist + length acts \<le> maxlen \<Longrightarrow>
   load_loop L acts hist = (hist @ List.map_filter (load_record L) acts, None)"
proof (induction acts arbitrary: hist)
  case Nil
  then show ?case by (simp add: List.map_filter_simps)
next
  case (Cons x acts)
  from Cons.prems(1) have dx: "is_dict x" and rest: "list_all is_dict acts"
    by simp_all
  from dx obtain d where x: "x = PDict d"
    by (cases x) (simp_all add: is_dict_def)
  show ?case
  proof (cases "load_record L (PDict d)")
    case None
    from Cons.prems(2) have "length hist + length acts \<le> maxlen" by simp
    from Cons.IH [OF rest this] None show ?thesis
      by (simp only: x load_loop_dict) (simp add: List.map_filter_simps)
  next
    case (Some a)
    from Cons.prems(2) have room: "length hist < maxlen" by simp
    from Cons.prems(2) have "length (hist @ [a]) + length acts \<le> maxlen" by simp
    from Cons.IH [OF rest this] Some show ?thesis
      by (simp only: x load_loop_dict deque_append_room [OF room])
        (simp add: List.map_filter_simps)
  qed
qed

lemma cleanup_timed:
  "\<forall>a \<in> set H. action_time a \<noteq> None \<Longrightarrow> cleanup H c = Inr (filter (newer_than c) H)"
proof (induction H)
  case Nil
  then show ?case by simp
next
  case (Cons a H)
  from Cons.prems obtain t where t: "map_of a ''timestamp'' = Some (PDatetime (Naive t))"
    by (auto simp: action_time_def split: option.splits pyval.splits stamp.splits)
  from Cons.prems have "\<forall>a \<in> set H. action_time a \<noteq> None" by simp
  from Cons.IH [OF this] show ?case
    by (simp add: subscript_def py_gt_def t newer_than_def action_time_def)
qed

lemma untimed_raises:
  "action_time a = None \<Longrightarrow>
   (\<exists>e. subscript a ''timestamp'' = Inl e) \<or>
   (\<exists>ts e. subscript a ''timestamp'' = Inr ts \<and> py_gt ts c = Inl e)"
  by (auto simp: action_time_def subscript_def py_gt_def
      split: option.splits pyval.splits stamp.splits)

lemma cleanup_raises:
  "\<not> list_all (\<lambda>a. action_time a \<noteq> None) H \<Longrightarrow> \<exists>e. cleanup H c = Inl e"
proof (induction H)
  case Nil
  then show ?case by simp
next
  case (Cons a H)
  show ?case
  proof (cases "action_time a")
    case None
    from untimed_raises [OF None, of c] show ?thesis
      by auto
  next
    case (Some t)
    with Cons.prems have "\<not> list_all (\<lambda>a. action_time a \<noteq> None) H" by simp
    from Cons.IH [OF this] obtain e where "cleanup H c = Inl e" by blast
    then show ?thesis by (simp split: sum.splits)
  qed
qed

lemma load_body_stored_actions:
  "load_actions_history_body L st
     (w\<lparr>log_file := Parsed (PDict (AList.update ''actions'' (PList acts) d))\<rparr>) now =
     (case load_loop L acts (actions_history st) of
        (hist, Some e) \<Rightarrow> (st\<lparr>actions_history := hist\<rparr>, Some e)
      | (hist, None) \<Rightarrow>
         (case cleanup hist (now - timedelta_days 7) of
            Inl e \<Rightarrow> (st\<lparr>actions_history := hist\<rparr>, Some e)
          | Inr kept \<Rightarrow> (st\<lparr>actions_history := deque_of kept\<rparr>, None)))"
  by (simp add: load_actions_history_body_def load_json_file_def dict_get_def update_conv'
      py_iter_def)

lemma load_returns: "\<exists>st'. load_actions_history L st w now = Returns st'"
  by (simp add: load_actions_history_def split: prod.splits option.splits)

lemma load_missing_or_corrupt:
  "log_file w = Missing \<or> log_file w = Corrupt \<Longrightarrow>
   load_actions_history L st w now = Returns st"
  by (auto simp: load_actions_history_def load_actions_history_body_def load_json_file_def)

lemma load_skips_bad_record:
  "parse_timestamp L (dict_get bad ''timestamp'' PNone) = None \<Longrightarrow>
   load_actions_history L st
     (w\<lparr>log_file := Parsed (PDict (AList.update ''actions'' (PList (xs @ PDict bad # ys)) d))\<rparr>)
     now =
   load_actions_history L st
     (w\<lparr>log_file := Parsed (PDict (AList.update ''actions'' (PList (xs @ ys)) d))\<rparr>) now"
  by (simp only: load_actions_history_def load_body_stored_actions load_loop_skip)

lemma load_all_dicts:
  assumes "actions_history st = []" and "list_all is_dict acts" and "length acts \<le> maxlen"
  shows "load_actions_history L st
     (w\<lparr>log_file := Parsed (PDict (AList.update ''actions'' (PList acts) d))\<rparr>) now =
     Returns (st\<lparr>actions_history :=
       retained (now - timedelta_days 7) (List.map_filter (load_record L) acts)\<rparr>)"
proof -
  let ?H = "List.map_filter (load_record L) acts"
  have l: "load_loop L acts (actions_history st) = (?H, None)"
    using load_loop_all_dicts [OF assms(2), of "[]" L] assms(1,3) by simp
  show ?thesis
  proof (cases "list_all (\<lambda>a. action_time a \<noteq> None) ?H")
    case True
    then have t: "\<forall>a \<in> set ?H. action_time a \<noteq> None" by (simp add: list_all_iff)
    have len: "length (filter (newer_than (now - timedelta_days 7)) ?H) \<le> maxlen"
      using length_filter_le [of "newer_than (now - timedelta_days 7)" ?H]
        length_map_filter_le [of "load_record L" acts] assms(3) by linarith
    from True show ?thesis
      by (simp add: load_actions_history_def load_body_stored_actions l cleanup_timed [OF t]
          deque_of_room [OF len] retained_def)
  next
    case False
    from cleanup_raises [OF False] obtain e where
      "cleanup ?H (now - timedelta_days 7) = Inl e" by blast
    with False show ?thesis
      by (simp add: load_actions_history_def load_body_stored_actions l retained_def)
  qed
qed









section \<open>Lemmas on monotonicity\<close>

text \<open>More records never turn a denial into a permission.\<close>

lemma deny_persists_on_extension:
  "\<not> fst (can_perform_action (st\<lparr>actions_history := H\<rparr>) now skip ty) \<Longrightarrow>
   \<not> fst (can_perform_action (st\<lparr>actions_history := H @ E\<rparr>) now skip ty)"
proof (rule contrapos_nn)
  assume "fst (can_perform_action (st\<lparr>actions_history := H @ E\<rparr>) now skip ty)"
  then have a: "\<not> in_cooldown st now"
    "within_cap (count_loop (H @ E) (now - timedelta_hours 24) None 0) (max_actions_per_day st)"
    "within_cap (count_loop (H @ E) (now - timedelta_hours 1) None 0) (max_actions_per_hour st)"
    "case type_cap st ty of None \<Rightarrow> True
      | Some cap \<Rightarrow> within_cap (count_loop (H @ E) (now - timedelta_hours 1) (Some ty) 0) cap"
    "\<not> quiet_loop (quiet_periods st) (hour_of now) skip 0"
    by (simp_all add: can_perform_action_allows cong: option.case_cong)
  have t: "case type_cap st ty of None \<Rightarrow> True
      | Some cap \<Rightarrow> within_cap (count_loop H (now - timedelta_hours 1) (Some ty) 0) cap"
    using a(4) by (auto split: option.splits intro: within_cap_extend)
  show "fst (can_perform_action (st\<lparr>actions_history := H\<rparr>) now skip ty)"
    using a(1,5) within_cap_extend [OF a(2)] within_cap_extend [OF a(3)] t
    by (simp add: can_perform_action_allows cong: option.case_cong)
qed

lemma count_after_eviction:
  assumes "c < t" and "case ty of None \<Rightarrow> True | Some x \<Rightarrow> aty = x"
  shows "\<exists>n n'. count_loop (action_dict r # map action_dict rs) c ty 0 = Inr n \<and>
     count_loop (map action_dict rs @ [action_dict (aty, s, t, md)]) c ty 0 = Inr n' \<and> n \<le> n'"
proof -
  let ?P = "\<lambda>r. fst (snd (snd r)) > c \<and> (case ty of None \<Rightarrow> True | Some x \<Rightarrow> fst r = x)"
  have 1: "count_loop (map action_dict (r # rs)) c ty 0 =
      Inr (0 + int (length (filter ?P (r # rs))))"
    by (rule count_loop_action_dicts)
  have 2: "count_loop (map action_dict (rs @ [(aty, s, t, md)])) c ty 0 =
      Inr (0 + int (length (filter ?P (rs @ [(aty, s, t, md)]))))"
    by (rule count_loop_action_dicts)
  from assms have "?P (aty, s, t, md)" by (cases ty) simp_all
  then have "length (filter ?P (r # rs)) \<le> length (filter ?P (rs @ [(aty, s, t, md)]))"
    by simp
  with 1 2 show ?thesis by simp
qed


lemma within_cap_after_eviction:
  assumes "c < t" and "case ty of None \<Rightarrow> True | Some x \<Rightarrow> aty = x"
    and "within_cap (count_loop (map action_dict rs @ [action_dict (aty, s, t, md)]) c ty 0) cap"
  shows "within_cap (count_loop (action_dict r # map action_dict rs) c ty 0) cap"
proof -
  from count_after_eviction [OF assms(1,2), of r rs s md]
  obtain n n' where "count_loop (action_dict r # map action_dict rs) c ty 0 = Inr n"
    "count_loop (map action_dict rs @ [action_dict (aty, s, t, md)]) c ty 0 = Inr n'" "n \<le> n'"
    by blast
  with assms(3) show ?thesis by (simp add: within_cap_def)
qed

text \<open>
  The same through the bounded deque: appending a record of the checked type that lies in
  the trailing hour keeps a denial, also when the append evicts the oldest record.
\<close>

lemma deny_persists_on_deque_append:
  assumes deny: "\<not> fst (can_perform_action (st\<lparr>actions_history := map action_dict rs\<rparr>) now skip ty)"
    and recent: "now - timedelta_hours 1 < t"
  shows "\<not> fst (can_perform_action
      (st\<lparr>actions_history := deque_append (map action_dict rs) (action_dict (ty, s, t, md))\<rparr>)
      now skip ty)"
proof (cases "maxlen \<le> length rs")
  case False
  then have "deque_append (map action_dict rs) (action_dict (ty, s, t, md)) =
      map action_dict rs @ [action_dict (ty, s, t, md)]"
    by (simp add: deque_append_def)
  with deny_persists_on_extension [OF deny] show ?thesis by simp
next
  case True
  then obtain r rs' where rs: "rs = r # rs'"
    by (cases rs) (simp_all add: maxlen_def)
  from True have d: "deque_append (map action_dict rs) (action_dict (ty, s, t, md)) =
      (map action_dict rs' @ [action_dict (ty, s, t, md)])"
    by (simp add: deque_append_def rs)
  from recent have day: "now - timedelta_hours 24 < t"
    by (simp add: timedelta_hours_def)
  show ?thesis
  proof
    assume "fst (can_perform_action
      (st\<lparr>actions_history := deque_append (map action_dict rs) (action_dict (ty, s, t, md))\<rparr>)
      now skip ty)"
    then have a: "\<not> in_cooldown st now"
      "within_cap (count_loop ((map action_dict rs' @ [action_dict (ty, s, t, md)]))
         (now - timedelta_hours 24) None 0) (max_actions_per_day st)"
      "within_cap (count_loop ((map action_dict rs' @ [action_dict (ty, s, t, md)]))
         (now - timedelta_hours 1) None 0) (max_actions_per_hour st)"
      "case type_cap st ty of None \<Rightarrow> True
        | Some cap \<Rightarrow> within_cap (count_loop ((map action_dict rs' @ [action_dict (ty, s, t, md)]))
            (now - timedelta_hours 1) (Some ty) 0) cap"
      "\<not> quiet_loop (quiet_periods st) (hour_of now) skip 0"
      by (simp_all add: d can_perform_action_allows cong: option.case_cong)
    have 1: "within_cap (count_loop (action_dict r # map action_dict rs') (now - timedelta_hours 24) None 0)
        (max_actions_per_day st)"
      by (rule within_cap_after_eviction [OF day _ a(2)]) simp
    have 2: "within_cap (count_loop (action_dict r # map action_dict rs') (now - timedelta_hours 1) None 0)
        (max_actions_per_hour st)"
      by (rule within_cap_after_eviction [OF recent _ a(3)]) simp
    have 3: "case type_cap st ty of None \<Rightarrow> True
        | Some cap \<Rightarrow> within_cap (count_loop (action_dict r # map action_dict rs')
            (now - timedelta_hours 1) (Some ty) 0) cap"
    proof (cases "type_cap st ty")
      case None
      then show ?thesis by simp
    next
      case (Some cap)
      with a(4) have "within_cap (count_loop ((map action_dict rs' @ [action_dict (ty, s, t, md)]))
            (now - timedelta_hours 1) (Some ty) 0) cap" by simp
      from within_cap_after_eviction [OF recent _ this, of r] Some show ?thesis by simp
    qed
    from a(1,5) 1 2 3 have "fst (can_perform_action (st\<lparr>actions_history := map action_dict rs\<rparr>) now skip ty)"
      by (simp add: rs can_perform_action_allows cong: option.case_cong)
    with deny show False by simp
  qed
qed

section \<open>Lemmas on failed actions and on aware timestamps\<close>

lemma failed_record_counts:
  assumes "length (actions_history st) < maxlen" and "now - timedelta_hours hours < t"
    and "case ty of None \<Rightarrow> True | Some x \<Rightarrow> aty = x"
  shows "get_actions_in_timeframe (fst (record_action L st w t aty s md)) now hours ty =
     (case get_actions_in_timeframe st now hours ty of Inl e \<Rightarrow> Inl e | Inr n \<Rightarrow> Inr (n + 1))"
proof -
  from assms(2,3) have q: "qualifies
      (action_dict (aty, s, t, case md of None \<Rightarrow> [] | Some m \<Rightarrow> m))
      (now - timedelta_hours hours) ty = Inr True"
    by (simp add: qualifies_action_dict)
  from assms(1) show ?thesis
    by (simp add: timeframe_record_action deque_append_def count_loop_snoc q
        get_actions_in_timeframe_def cong: sum.case_cong)
qed

lemma failed_records_scenario:
  fixes L rnd w t0 skip
  defines "st2 \<equiv> fst (record_actions L ((init_limiter rnd)\<lparr>max_actions_per_day := 2\<rparr>) w
          [(t0, ''search'', False, None), (t0, ''search'', False, None)])"
  shows "get_actions_in_timeframe st2 (t0 + timedelta_minutes 10) 24 None = Inr 2 \<and>
     \<not> fst (can_perform_action st2 (t0 + timedelta_minutes 10) skip ''like'')"
proof -
  have h: "actions_history st2 =
      map action_dict (map call_record [(t0, ''search'', False, None), (t0, ''search'', False, None)])"
    unfolding st2_def
    by (subst record_actions_history) (simp_all add: init_limiter_def maxlen_def)
  have g: "get_actions_in_timeframe st2 (t0 + timedelta_minutes 10) 24 None = Inr 2"
    by (simp add: get_actions_in_timeframe_def h call_record_def count_loop_Cons
        qualifies_action_dict timedelta_minutes_def timedelta_hours_def
        del: count_loop.simps(2))
  have c: "max_actions_per_day st2 = 2"
    using record_actions_same_config [of "(init_limiter rnd)\<lparr>max_actions_per_day := 2\<rparr>" L w
        "[(t0, ''search'', False, None), (t0, ''search'', False, None)]"]
    by (simp add: st2_def same_config_def)
  from g c show ?thesis
    by (simp add: can_perform_action_allows within_cap_def)
qed

lemma success_flag_irrelevant:
  "get_actions_in_timeframe
     (st\<lparr>actions_history := map (\<lambda>a. AList.update ''success'' (flag a) a) (actions_history st)\<rparr>)
     now hours ty
   = get_actions_in_timeframe st now hours ty \<and>
   fst (can_perform_action
     (st\<lparr>actions_history := map (\<lambda>a. AList.update ''success'' (flag a) a) (actions_history st)\<rparr>)
     now skip aty)
   = fst (can_perform_action st now skip aty) \<and>
   get_actions_in_timeframe (fst (record_action L st w t aty False md)) now hours ty
   = get_actions_in_timeframe (fst (record_action L st w t aty True md)) now hours ty"
proof -
  have c: "\<And>h ty. get_actions_in_timeframe
     (st\<lparr>actions_history := map (\<lambda>a. AList.update ''success'' (flag a) a) (actions_history st)\<rparr>)
     now h ty = get_actions_in_timeframe st now h ty"
    by (simp add: count_loop_success) (simp add: get_actions_in_timeframe_def)
  have r: "get_actions_in_timeframe (fst (record_action L st w t aty False md)) now hours ty
     = get_actions_in_timeframe (fst (record_action L st w t aty True md)) now hours ty"
    by (simp add: timeframe_record_action deque_append_def count_loop_snoc qualifies_action_dict
        cong: sum.case_cong)
  have p: "fst (can_perform_action
     (st\<lparr>actions_history := map (\<lambda>a. AList.update ''success'' (flag a) a) (actions_history st)\<rparr>)
     now skip aty) = fst (can_perform_action st now skip aty)"
    unfolding can_perform_action_allows c by simp
  from c r p show ?thesis by simp
qed

text \<open>
  A store that holds a timestamp with a UTC offset: the cleanup raises on the aware
  datetime and both records stay, the one from five weeks ago included.
\<close>

lemma load_keeps_all_on_aware_timestamp:
  "load_actions_history table_lib (init_limiter (\<lambda>h. 0))
     (\<lparr>log_file = Missing, writable = True, save_calls = 0\<rparr>\<lparr>log_file :=
        Parsed (PDict (AList.update ''actions''
          (PList
            [PDict [(''type'', PStr ''like''), (''timestamp'', PStr ''2024-12-01T09:00:00'')],
             PDict [(''type'', PStr ''like''),
                    (''timestamp'', PStr ''2024-12-01T09:00:00+00:00'')]])
          []))\<rparr>)
     63871754460000000 =
   Returns ((init_limiter (\<lambda>h. 0))\<lparr>actions_history :=
     [[(''type'', PStr ''like''), (''timestamp'', PDatetime (Naive 63868640400000000))],
      [(''type'', PStr ''like''), (''timestamp'', PDatetime (Aware 63868640400000000 0))]]\<rparr>)"
  by (subst load_all_dicts)
    (simp_all add: init_limiter_def is_dict_def maxlen_def load_record_def
      parse_timestamp_def table_lib_def iso_table_def dict_get_def retained_def action_time_def)

section \<open>Results\<close>

text \<open>
  C2 (daily activity pattern). The entry for hour \<open>h\<close> is the base value of the table
  times the factor \<open>0.8 + 0.4 r\<close> drawn for that hour. The bases for 6-9, 12-13 and
  17-22 are 1.5, 0.8 and 1.8; but the branch for the night, \<^verbatim>\<open>23 <= hour <= 5\<close>, holds
  for no hour, so each of the hours 23, 0, 1, 2, 3, 4, 5 gets the base 1.0 and not 0.3.
\<close>

theorem night_hours_get_baseline:
  "hour_multiplier 23 = 1 \<and> hour_multiplier 0 = 1 \<and> hour_multiplier 1 = 1 \<and>
   hour_multiplier 2 = 1 \<and> hour_multiplier 3 = 1 \<and> hour_multiplier 4 = 1 \<and>
   hour_multiplier 5 = 1 \<and>
   generate_daily_pattern (\<lambda>h. 1 / 2) ! 23 = 1 \<and>
   generate_daily_pattern (\<lambda>h. 1 / 2) ! 23 \<noteq> 0.3 * (0.8 + (1 / 2) * 0.4) \<and>
   generate_daily_pattern (\<lambda>h. 1 / 2) ! 7 = 1.5 \<and>
   generate_daily_pattern (\<lambda>h. 1 / 2) ! 12 = 0.8 \<and>
   generate_daily_pattern (\<lambda>h. 1 / 2) ! 20 = 1.8"
  by (simp add: hour_multiplier_def generate_daily_pattern_def)

text \<open>
  C4 (monotonicity). With the configuration, the error state, the clock and the outcomes
  of the quiet-period draws fixed, a check that denies on a history \<open>H\<close> denies on
  every history \<open>H @ E\<close> that holds further records, whatever they are: more records
  never turn a denial into a permission. (Lemma \<open>deny_persists_on_deque_append\<close> is the
  same for an append through the bounded deque.)
\<close>

theorem can_perform_action_monotone:
  "\<not> fst (can_perform_action (st\<lparr>actions_history := H\<rparr>) now skip ty) \<Longrightarrow>
   \<not> fst (can_perform_action (st\<lparr>actions_history := H @ E\<rparr>) now skip ty)"
  by (rule deny_persists_on_extension)

theorem can_perform_action_monotone_witness:
  "\<not> fst (can_perform_action
       ((init_limiter (\<lambda>h. 0))\<lparr>max_likes_per_hour := 2, actions_history :=
          [[(''type'', PStr ''like''), (''success'', PBool True),
            (''timestamp'', PDatetime (Naive 63871750800000000)), (''metadata'', PDict [])],
           [(''type'', PStr ''like''), (''success'', PBool True),
            (''timestamp'', PDatetime (Naive 63871750800000000)), (''metadata'', PDict [])]]\<rparr>)
       63871751400000000 (\<lambda>k. False) ''like'') \<and>
   \<not> fst (can_perform_action
       ((init_limiter (\<lambda>h. 0))\<lparr>max_likes_per_hour := 2, actions_history :=
          [[(''type'', PStr ''like''), (''success'', PBool True),
            (''timestamp'', PDatetime (Naive 63871750800000000)), (''metadata'', PDict [])],
           [(''type'', PStr ''like''), (''success'', PBool True),
            (''timestamp'', PDatetime (Naive 63871750800000000)), (''metadata'', PDict [])]] @
          [[(''type'', PStr ''like''), (''success'', PBool False),
            (''timestamp'', PDatetime (Naive 63871751400000000)), (''metadata'', PDict [])]]\<rparr>)
       63871751400000000 (\<lambda>k. False) ''like'')"
proof -
  have d: "\<not> fst (can_perform_action
       ((init_limiter (\<lambda>h. 0))\<lparr>max_likes_per_hour := 2, actions_history :=
          [[(''type'', PStr ''like''), (''success'', PBool True),
            (''timestamp'', PDatetime (Naive 63871750800000000)), (''metadata'', PDict [])],
           [(''type'', PStr ''like''), (''success'', PBool True),
            (''timestamp'', PDatetime (Naive 63871750800000000)), (''metadata'', PDict [])]]\<rparr>)
       63871751400000000 (\<lambda>k. False) ''like'')"
    by (simp add: can_perform_action_def get_actions_in_timeframe_def init_limiter_def
        subscript_def py_gt_def timedelta_hours_def)
  from d can_perform_action_monotone [OF d] show ?thesis
    by (rule conjI)
qed

text \<open>
  C10 (quota counting ignores the success flag). The counts of
  \<^verbatim>\<open>_get_actions_in_timeframe\<close> do not read the success flag: overwriting the flag of
  every record, by any values, changes no count and no answer of
  \<^verbatim>\<open>can_perform_action\<close>, and a record counts the same whether \<^verbatim>\<open>record_action\<close>
  stored it as failed or as successful. A failed action is counted: on recorded actions
  the count is the number of records in the window (of the type, if one is asked for),
  whatever their flags; recording a failed action that lies in the window and has the
  type raises the count by one (the deque not being full); and two failed searches use up
  a daily cap of 2, so that a like is denied.
\<close>

theorem quota_counts_ignore_success:
  "get_actions_in_timeframe
     (st\<lparr>actions_history := map (\<lambda>a. AList.update ''success'' (flag a) a) (actions_history st)\<rparr>)
     now hours ty
   = get_actions_in_timeframe st now hours ty \<and>
   fst (can_perform_action
     (st\<lparr>actions_history := map (\<lambda>a. AList.update ''success'' (flag a) a) (actions_history st)\<rparr>)
     now skip aty)
   = fst (can_perform_action st now skip aty) \<and>
   get_actions_in_timeframe (fst (record_action L st w t aty False md)) now hours ty
   = get_actions_in_timeframe (fst (record_action L st w t aty True md)) now hours ty \<and>
   get_actions_in_timeframe (st\<lparr>actions_history := map action_dict rs\<rparr>) now hours ty =
     Inr (int (length (filter
       (\<lambda>r. now - timedelta_hours hours < fst (snd (snd r)) \<and>
            (case ty of None \<Rightarrow> True | Some x \<Rightarrow> fst r = x)) rs))) \<and>
   (length (actions_history st) < maxlen \<and> now - timedelta_hours hours < t \<and>
    (case ty of None \<Rightarrow> True | Some x \<Rightarrow> aty = x) \<longrightarrow>
      get_actions_in_timeframe (fst (record_action L st w t aty False md)) now hours ty =
        (case get_actions_in_timeframe st now hours ty of
           Inl e \<Rightarrow> Inl e
         | Inr n \<Rightarrow> Inr (n + 1))) \<and>
   (let st2 = fst (record_actions L ((init_limiter rnd)\<lparr>max_actions_per_day := 2\<rparr>) w
                [(t0, ''search'', False, None), (t0, ''search'', False, None)])
    in get_actions_in_timeframe st2 (t0 + timedelta_minutes 10) 24 None = Inr 2 \<and>
       \<not> fst (can_perform_action st2 (t0 + timedelta_minutes 10) skip ''like''))"
proof -
  note a = success_flag_irrelevant [where st = st and flag = flag and now = now
      and hours = hours and ty = ty and skip = skip and aty = aty and L = L and w = w
      and t = t and md = md]
  have b: "get_actions_in_timeframe (st\<lparr>actions_history := map action_dict rs\<rparr>) now hours ty =
     Inr (int (length (filter
       (\<lambda>r. now - timedelta_hours hours < fst (snd (snd r)) \<and>
            (case ty of None \<Rightarrow> True | Some x \<Rightarrow> fst r = x)) rs)))"
    by (simp add: count_loop_action_dicts)
  have c: "length (actions_history st) < maxlen \<and> now - timedelta_hours hours < t \<and>
    (case ty of None \<Rightarrow> True | Some x \<Rightarrow> aty = x) \<longrightarrow>
      get_actions_in_timeframe (fst (record_action L st w t aty False md)) now hours ty =
        (case get_actions_in_timeframe st now hours ty of
           Inl e \<Rightarrow> Inl e
         | Inr n \<Rightarrow> Inr (n + 1))"
    by (blast intro: failed_record_counts)
  note d = failed_records_scenario [of L rnd w t0 skip]
  from a b c d show ?thesis
    by (simp only: Let_def) blast
qed

theorem quota_counts_ignore_success_witness:
  "get_actions_in_timeframe
     (fst (record_action table_lib (init_limiter (\<lambda>h. 0))
        \<lparr>log_file = Missing, writable = True, save_calls = 0\<rparr>
        63871750800000000 ''like'' False None))
     63871751400000000 1 (Some ''like'') = Inr 1"
proof -
  let ?st = "init_limiter (\<lambda>h. 0)"
  let ?w = "\<lparr>log_file = Missing, writable = True, save_calls = 0\<rparr>"
  have h: "length (actions_history ?st) < maxlen \<and>
      63871751400000000 - timedelta_hours 1 < (63871750800000000::int) \<and>
      (case Some ''like'' of None \<Rightarrow> True | Some x \<Rightarrow> ''like'' = x)"
    by (simp add: init_limiter_def maxlen_def timedelta_hours_def)
  have z: "get_actions_in_timeframe ?st 63871751400000000 1 (Some ''like'') = Inr 0"
    by (simp add: get_actions_in_timeframe_def init_limiter_def)
  from quota_counts_ignore_success [where st = ?st and now = 63871751400000000
      and hours = 1 and ty = "Some ''like''" and aty = "''like''" and L = table_lib
      and w = ?w and t = 63871750800000000 and md = None] h
  have "get_actions_in_timeframe
     (fst (record_action table_lib ?st ?w 63871750800000000 ''like'' False None))
     63871751400000000 1 (Some ''like'') =
    (case get_actions_in_timeframe ?st 63871751400000000 1 (Some ''like'') of
       Inl e \<Rightarrow> Inl e
     | Inr n \<Rightarrow> Inr (n + 1))"
    by blast
  then show ?thesis by (simp only: z) simp
qed

text \<open>
  C1 (error cooldown). After five consecutive calls of \<^verbatim>\<open>record_action\<close> with
  \<^verbatim>\<open>success=False\<close> (on a limiter whose error counter is not negative), the last of
  them at time \<open>t5\<close>: while less than 30 minutes have passed since \<open>t5\<close>,
  \<^verbatim>\<open>can_perform_action\<close> denies every action type and leaves the limiter as it is;
  once 30 minutes or more have passed, the check sets \<^verbatim>\<open>consecutive_errors\<close> to 0
  and permits exactly when no other limit applies.
\<close>

theorem error_cooldown:
  assumes "0 \<le> consecutive_errors st0"
    and "length calls = 5"
    and "\<forall>c \<in> set calls. \<not> fst (snd (snd c))"
  shows "let st5 = fst (record_actions L st0 w calls); t5 = fst (last calls) in
     (now - t5 < timedelta_minutes 30 \<longrightarrow>
        can_perform_action st5 now skip ty = (False, st5)) \<and>
     (now - t5 \<ge> timedelta_minutes 30 \<longrightarrow>
        snd (can_perform_action st5 now skip ty) = st5\<lparr>consecutive_errors := 0\<rparr> \<and>
        consecutive_errors (snd (can_perform_action st5 now skip ty)) = 0 \<and>
        fst (can_perform_action st5 now skip ty) = no_other_limit st5 now skip ty)"
proof -
  define st5 where "st5 = fst (record_actions L st0 w calls)"
  from assms(2) have ne: "calls \<noteq> []" by auto
  have e: "consecutive_errors st5 \<ge> 5"
    using assms(1,2) by (simp add: st5_def record_actions_fail_errors [OF assms(3)])
  have t: "last_error_time st5 = Some (fst (last calls))"
    by (simp add: st5_def record_actions_fail_time [OF ne assms(3)])
  have cd: "in_cooldown st5 now = (now - fst (last calls) < timedelta_minutes 30)"
    using e by (simp add: in_cooldown_def t timedelta_minutes_def)
  have a: "now - fst (last calls) < timedelta_minutes 30 \<Longrightarrow>
      can_perform_action st5 now skip ty = (False, st5)"
    using cd e by (simp add: prod_eq_iff can_perform_action_allows' can_perform_action_state)
  have b: "now - fst (last calls) \<ge> timedelta_minutes 30 \<Longrightarrow>
      snd (can_perform_action st5 now skip ty) = st5\<lparr>consecutive_errors := 0\<rparr> \<and>
      fst (can_perform_action st5 now skip ty) = no_other_limit st5 now skip ty"
    using cd e by (simp add: can_perform_action_allows' can_perform_action_state)
  from a b show ?thesis
    by (simp add: Let_def st5_def [symmetric])
qed

theorem error_cooldown_witness:
  "(let st5 = fst (record_actions \<lparr>isoformat = \<lambda>t. [], fromisoformat = \<lambda>s. None\<rparr>
        (init_limiter (\<lambda>h. 0)) \<lparr>log_file = Missing, writable = True, save_calls = 0\<rparr>
        [(63871750500000000, ''engagement'', False, None),
         (63871750560000000, ''engagement'', False, None),
         (63871750620000000, ''like'', False, None),
         (63871750680000000, ''engagement'', False, None),
         (63871750800000000, ''engagement'', False, None)])
    in can_perform_action st5 63871751400000000 (\<lambda>k. False) ''like'' = (False, st5) \<and>
       can_perform_action st5 63871751400000000 (\<lambda>k. False) ''search'' = (False, st5) \<and>
       fst (can_perform_action st5 63871754460000000 (\<lambda>k. False) ''like'') \<and>
       consecutive_errors (snd (can_perform_action st5 63871754460000000 (\<lambda>k. False) ''like'')) = 0)"
proof -
  let ?L = "\<lparr>isoformat = \<lambda>t. [], fromisoformat = \<lambda>s. None\<rparr>"
  let ?w = "\<lparr>log_file = Missing, writable = True, save_calls = 0\<rparr>"
  let ?calls = "[(63871750500000000, ''engagement'', False, None),
         (63871750560000000, ''engagement'', False, None),
         (63871750620000000, ''like'', False, None),
         (63871750680000000, ''engagement'', False, None),
         (63871750800000000::int, ''engagement'', False, None::pydict option)]"
  have h1: "0 \<le> consecutive_errors (init_limiter (\<lambda>h. 0))"
    by (simp add: init_limiter_def)
  have h2: "length ?calls = 5" by simp
  have h3: "\<forall>c \<in> set ?calls. \<not> fst (snd (snd c))" by simp
  have n: "no_other_limit (fst (record_actions ?L (init_limiter (\<lambda>h. 0)) ?w ?calls))
      63871754460000000 (\<lambda>k. False) ''like''"
    by (subst no_other_limit_record_actions)
      (simp_all add: init_limiter_def maxlen_def no_other_limit_def within_cap_def type_cap_def
        get_actions_in_timeframe_def count_loop_Cons qualifies_action_dict call_record_def
        timedelta_hours_def hour_of_def del: count_loop.simps(2))
  show ?thesis
    using error_cooldown [OF h1 h2 h3, of ?L ?w 63871751400000000 "\<lambda>k. False" "''like''"]
      error_cooldown [OF h1 h2 h3, of ?L ?w 63871751400000000 "\<lambda>k. False" "''search''"]
      error_cooldown [OF h1 h2 h3, of ?L ?w 63871754460000000 "\<lambda>k. False" "''like''"] n
    by (simp add: Let_def timedelta_minutes_def)
qed

text \<open>
  C3 (per-type hourly cap). For each of the tracked sub-types like, reply and retweet, a
  count of that sub-type over the trailing hour that reaches the type's hourly cap makes
  \<^verbatim>\<open>can_perform_action\<close> deny. On a history of recorded actions that count is the
  number of records of the type whose timestamp is later than \<open>now\<close> minus one hour.
  Scenario: with \<^verbatim>\<open>max_likes_per_hour=2\<close> and two successful likes recorded at
  \<open>t0\<close>, a like is denied at \<open>t0\<close> + 10 minutes; at \<open>t0\<close> + 61 minutes it is
  allowed unless a quiet period suppresses it, and allowed when no draw suppresses.
\<close>

theorem per_type_hourly_cap:
  "(get_actions_in_timeframe st now 1 (Some ty) = Inr n \<and>
    (ty = ''like'' \<and> max_likes_per_hour st \<le> n \<or>
     ty = ''reply'' \<and> max_replies_per_hour st \<le> n \<or>
     ty = ''retweet'' \<and> max_retweets_per_hour st \<le> n)
    \<longrightarrow> \<not> fst (can_perform_action st now skip ty)) \<and>
   get_actions_in_timeframe (st\<lparr>actions_history := map action_dict rs\<rparr>) now 1 (Some ty) =
     Inr (int (length (filter
       (\<lambda>r. fst (snd (snd r)) > now - timedelta_hours 1 \<and> fst r = ty) rs))) \<and>
   (let st2 = fst (record_actions L ((init_limiter rnd)\<lparr>max_likes_per_hour := 2\<rparr>) w
                [(t0, ''like'', True, None), (t0, ''like'', True, None)])
    in \<not> fst (can_perform_action st2 (t0 + timedelta_minutes 10) skip ''like'') \<and>
       fst (can_perform_action st2 (t0 + timedelta_minutes 61) skip ''like'') =
         (\<not> quiet_loop [(23, 6), (12, 13)] (hour_of (t0 + timedelta_minutes 61)) skip 0) \<and>
       fst (can_perform_action st2 (t0 + timedelta_minutes 61) (\<lambda>k. False) ''like''))"
proof -
  have a: "get_actions_in_timeframe st now 1 (Some ty) = Inr n \<and>
    (ty = ''like'' \<and> max_likes_per_hour st \<le> n \<or>
     ty = ''reply'' \<and> max_replies_per_hour st \<le> n \<or>
     ty = ''retweet'' \<and> max_retweets_per_hour st \<le> n)
    \<longrightarrow> \<not> fst (can_perform_action st now skip ty)"
    by (auto simp: can_perform_action_allows type_cap_def within_cap_def)
  have b: "get_actions_in_timeframe (st\<lparr>actions_history := map action_dict rs\<rparr>) now 1 (Some ty) =
     Inr (int (length (filter
       (\<lambda>r. fst (snd (snd r)) > now - timedelta_hours 1 \<and> fst r = ty) rs)))"
    by (simp add: count_loop_action_dicts)
  have c: "fst (can_perform_action
       (fst (record_actions L ((init_limiter rnd)\<lparr>max_likes_per_hour := 2\<rparr>) w
                [(t0, ''like'', True, None), (t0, ''like'', True, None)]))
       (t0 + timedelta_minutes 61) (\<lambda>k. False) ''like'')"
    using like_scenario [of L rnd w t0 "\<lambda>k. False"] by (simp add: quiet_loop_no_skip)
  from a b c like_scenario [of L rnd w t0 skip] show ?thesis
    by (simp only: Let_def) blast
qed

theorem per_type_hourly_cap_witness:
  "get_actions_in_timeframe
     ((init_limiter (\<lambda>h. 0))\<lparr>max_replies_per_hour := 1, actions_history :=
        [action_dict (''reply'', False, 63871750800000000, [])]\<rparr>)
     63871751400000000 1 (Some ''reply'') = Inr 1 \<and>
   \<not> fst (can_perform_action
     ((init_limiter (\<lambda>h. 0))\<lparr>max_replies_per_hour := 1, actions_history :=
        [action_dict (''reply'', False, 63871750800000000, [])]\<rparr>)
     63871751400000000 (\<lambda>k. False) ''reply'')"
proof -
  let ?st = "(init_limiter (\<lambda>h. 0))\<lparr>max_replies_per_hour := 1, actions_history :=
        [action_dict (''reply'', False, 63871750800000000, [])]\<rparr>"
  have g: "get_actions_in_timeframe ?st 63871751400000000 1 (Some ''reply'') = Inr 1"
    by (simp add: count_loop_Cons qualifies_action_dict timedelta_hours_def
        del: count_loop.simps(2))
  have m: "max_replies_per_hour ?st \<le> 1" by simp
  from per_type_hourly_cap [of ?st 63871751400000000 "''reply''" 1 "\<lambda>k. False", THEN conjunct1] g m
  have "\<not> fst (can_perform_action ?st 63871751400000000 (\<lambda>k. False) ''reply'')"
    by blast
  with g show ?thesis by (rule conjI)
qed

text \<open>
  C6 (error backoff scaling). \<^verbatim>\<open>wait_after_error\<close> scales both bounds of the configured
  \<^verbatim>\<open>after_error\<close> range by \<open>1 + 0.5 * consecutive_errors\<close> and samples between the
  scaled bounds (a draw in \<open>[0, 1]\<close> lands between them). After exactly three failures in
  a row the bounds are the base bounds times 2.5, each strictly larger than a positive
  base bound.
\<close>

theorem error_backoff_scaling:
  "after_error_range st =
     (fst (delay_after_error st) * (1 + of_int (consecutive_errors st) / 2),
      snd (delay_after_error st) * (1 + of_int (consecutive_errors st) / 2)) \<and>
   wait_after_error st r1 r2 =
     human_like_delay
       (uniform (fst (after_error_range st)) (snd (after_error_range st)) r1) 0.1 r2 \<and>
   (0 \<le> r1 \<and> r1 \<le> 1 \<and> fst (after_error_range st) \<le> snd (after_error_range st) \<longrightarrow>
      fst (after_error_range st) \<le> uniform (fst (after_error_range st)) (snd (after_error_range st)) r1 \<and>
      uniform (fst (after_error_range st)) (snd (after_error_range st)) r1 \<le> snd (after_error_range st)) \<and>
   (consecutive_errors st = 0 \<and> length calls = 3 \<and> (\<forall>c \<in> set calls. \<not> fst (snd (snd c))) \<longrightarrow>
      (let st3 = fst (record_actions L st w calls) in
         consecutive_errors st3 = 3 \<and>
         after_error_range st3 =
           (fst (delay_after_error st) * 2.5, snd (delay_after_error st) * 2.5) \<and>
         (0 < fst (delay_after_error st) \<longrightarrow>
            fst (delay_after_error st) < fst (after_error_range st3)) \<and>
         (0 < snd (delay_after_error st) \<longrightarrow>
            snd (delay_after_error st) < snd (after_error_range st3))))"
proof -
  have a: "\<And>st. after_error_range st =
     (fst (delay_after_error st) * (1 + of_int (consecutive_errors st) / 2),
      snd (delay_after_error st) * (1 + of_int (consecutive_errors st) / 2))"
    by (simp add: after_error_range_def case_prod_unfold Let_def)
  have b: "wait_after_error st r1 r2 =
     human_like_delay
       (uniform (fst (after_error_range st)) (snd (after_error_range st)) r1) 0.1 r2"
    by (simp add: wait_after_error_def case_prod_unfold)
  have u: "\<And>lo hi. 0 \<le> r1 \<Longrightarrow> r1 \<le> 1 \<Longrightarrow> lo \<le> hi \<Longrightarrow>
      lo \<le> uniform lo hi r1 \<and> uniform lo hi r1 \<le> hi"
  proof -
    fix lo hi :: rat
    assume r: "0 \<le> r1" "r1 \<le> 1" and l: "lo \<le> hi"
    have 1: "0 \<le> (hi - lo) * r1" using r l by simp
    have "(hi - lo) * r1 \<le> (hi - lo) * 1"
      using r l by (intro mult_left_mono) simp_all
    then have 2: "(hi - lo) * r1 \<le> hi - lo" by simp
    from 1 2 show "lo \<le> uniform lo hi r1 \<and> uniform lo hi r1 \<le> hi"
      by (simp add: uniform_def)
  qed
  have c: "consecutive_errors st = 0 \<Longrightarrow> length calls = 3 \<Longrightarrow>
      \<forall>c \<in> set calls. \<not> fst (snd (snd c)) \<Longrightarrow>
      consecutive_errors (fst (record_actions L st w calls)) = 3 \<and>
      delay_after_error (fst (record_actions L st w calls)) = delay_after_error st"
    using record_actions_same_config [of st L w calls]
    by (simp add: record_actions_fail_errors same_config_def)
  show ?thesis
    using b u c by (auto simp: a Let_def)
qed

theorem error_backoff_scaling_witness:
  "after_error_range
     (fst (record_actions \<lparr>isoformat = \<lambda>t. [], fromisoformat = \<lambda>s. None\<rparr>
        (init_limiter (\<lambda>h. 0)) \<lparr>log_file = Missing, writable = True, save_calls = 0\<rparr>
        [(63871750500000000, ''engagement'', False, None),
         (63871750560000000, ''engagement'', False, None),
         (63871750620000000, ''engagement'', False, None)])) = (2250, 4500) \<and>
   fst (after_error_range (init_limiter (\<lambda>h. 0))) \<le>
     uniform (fst (after_error_range (init_limiter (\<lambda>h. 0))))
       (snd (after_error_range (init_limiter (\<lambda>h. 0)))) (1 / 2)"
proof -
  let ?L = "\<lparr>isoformat = \<lambda>t. [], fromisoformat = \<lambda>s. None\<rparr>"
  let ?w = "\<lparr>log_file = Missing, writable = True, save_calls = 0\<rparr>"
  let ?calls = "[(63871750500000000, ''engagement'', False, None),
         (63871750560000000, ''engagement'', False, None),
         (63871750620000000::int, ''engagement'', False, None::pydict option)]"
  have h: "consecutive_errors (init_limiter (\<lambda>h. 0)) = 0 \<and> length ?calls = 3 \<and>
      (\<forall>c \<in> set ?calls. \<not> fst (snd (snd c)))"
    by (simp add: init_limiter_def)
  have r: "(0::rat) \<le> 1 / 2 \<and> (1 / 2 :: rat) \<le> 1 \<and>
      fst (after_error_range (init_limiter (\<lambda>h. 0))) \<le>
      snd (after_error_range (init_limiter (\<lambda>h. 0)))"
    by (simp add: after_error_range_def init_limiter_def)
  note t = error_backoff_scaling [of "init_limiter (\<lambda>h. 0)" "1 / 2" 0 ?calls ?L ?w]
  from t h have "after_error_range (fst (record_actions ?L (init_limiter (\<lambda>h. 0)) ?w ?calls)) =
      (fst (delay_after_error (init_limiter (\<lambda>h. 0))) * 2.5,
       snd (delay_after_error (init_limiter (\<lambda>h. 0))) * 2.5)"
    by (simp only: Let_def) blast
  then have 1: "after_error_range (fst (record_actions ?L (init_limiter (\<lambda>h. 0)) ?w ?calls)) =
      (2250, 4500)"
    by (simp add: init_limiter_def)
  from t r have 2: "fst (after_error_range (init_limiter (\<lambda>h. 0))) \<le>
     uniform (fst (after_error_range (init_limiter (\<lambda>h. 0))))
       (snd (after_error_range (init_limiter (\<lambda>h. 0)))) (1 / 2)"
    by blast
  from 1 2 show ?thesis by (rule conjI)
qed

text \<open>
  C7 (dynamic delay), as the code has it. When the activity multiplier and the last-hour
  count are computed, the range starts from the configured between-actions bounds; the
  load factor is 1.5 when the count is more than 80% of the hourly cap (a count of exactly
  80% gets 1.0), 0.7 when it is below 20%, and 1.0 otherwise; the factor is multiplied by
  2 minus the activity multiplier; the lower bound is then raised to at least 10 and the
  upper bound lowered to at most 1800.
\<close>

theorem dynamic_delay_computation:
  "get_current_activity_multiplier st now = Inr am \<Longrightarrow>
   get_actions_in_timeframe st now 1 None = Inr recent \<Longrightarrow>
   calculate_dynamic_delay st now ty =
     Inr (max 10 (fst (delay_between_actions st) *
                    (load_factor recent (max_actions_per_hour st) * (2 - am))),
          min 1800 (snd (delay_between_actions st) *
                    (load_factor recent (max_actions_per_hour st) * (2 - am))))"
  by (rule calculate_dynamic_delay_value)

theorem dynamic_delay_threshold_counterexample:
  "get_current_activity_multiplier
     ((init_limiter (\<lambda>h. 1 / 2))\<lparr>max_actions_per_hour := 5, actions_history :=
        map action_dict
          [(''like'', True, 63871751400000000, []), (''like'', True, 63871751400000000, []),
           (''reply'', True, 63871751400000000, []), (''like'', True, 63871751400000000, [])]\<rparr>)
     63871754460000000 = Inr 1 \<and>
   get_actions_in_timeframe
     ((init_limiter (\<lambda>h. 1 / 2))\<lparr>max_actions_per_hour := 5, actions_history :=
        map action_dict
          [(''like'', True, 63871751400000000, []), (''like'', True, 63871751400000000, []),
           (''reply'', True, 63871751400000000, []), (''like'', True, 63871751400000000, [])]\<rparr>)
     63871754460000000 1 None = Inr 4 \<and>
   calculate_dynamic_delay
     ((init_limiter (\<lambda>h. 1 / 2))\<lparr>max_actions_per_hour := 5, actions_history :=
        map action_dict
          [(''like'', True, 63871751400000000, []), (''like'', True, 63871751400000000, []),
           (''reply'', True, 63871751400000000, []), (''like'', True, 63871751400000000, [])]\<rparr>)
     63871754460000000 ''like'' = Inr (60, 600) \<and>
   claimed_dynamic_delay (60, 600) 4 5 1 = (90, 900)"
proof -
  let ?st = "(init_limiter (\<lambda>h. 1 / 2))\<lparr>max_actions_per_hour := 5, actions_history :=
        map action_dict
          [(''like'', True, 63871751400000000, []), (''like'', True, 63871751400000000, []),
           (''reply'', True, 63871751400000000, []), (''like'', True, 63871751400000000, [])]\<rparr>"
  have a: "get_current_activity_multiplier ?st 63871754460000000 = Inr 1"
    by (rule demo_activity)
  have r: "get_actions_in_timeframe ?st 63871754460000000 1 None = Inr 4"
    by (simp add: count_loop_Cons qualifies_action_dict timedelta_hours_def
        del: count_loop.simps(2))
  have c: "calculate_dynamic_delay ?st 63871754460000000 ''like'' = Inr (60, 600)"
    using calculate_dynamic_delay_value [OF a r, of "''like''"]
    by (simp add: load_factor_def init_limiter_def)
  have d: "claimed_dynamic_delay (60, 600) 4 5 1 = (90, 900)"
    by (simp add: claimed_dynamic_delay_def claimed_load_factor_def)
  from a r c d show ?thesis by blast
qed

theorem dynamic_delay_computation_witness:
  "calculate_dynamic_delay
     ((init_limiter (\<lambda>h. 1 / 2))\<lparr>max_actions_per_hour := 5, actions_history :=
        map action_dict
          [(''like'', True, 63871751400000000, []), (''like'', True, 63871751400000000, []),
           (''reply'', True, 63871751400000000, []), (''like'', True, 63871751400000000, []),
           (''retweet'', False, 63871751400000000, [])]\<rparr>)
     63871754460000000 ''like'' = Inr (90, 900)"
proof -
  let ?st = "(init_limiter (\<lambda>h. 1 / 2))\<lparr>max_actions_per_hour := 5, actions_history :=
        map action_dict
          [(''like'', True, 63871751400000000, []), (''like'', True, 63871751400000000, []),
           (''reply'', True, 63871751400000000, []), (''like'', True, 63871751400000000, []),
           (''retweet'', False, 63871751400000000, [])]\<rparr>"
  have a: "get_current_activity_multiplier ?st 63871754460000000 = Inr 1"
    by (rule demo_activity)
  have r: "get_actions_in_timeframe ?st 63871754460000000 1 None = Inr 5"
    by (simp add: count_loop_Cons qualifies_action_dict timedelta_hours_def
        del: count_loop.simps(2))
  from dynamic_delay_computation [OF a r, of "''like''"] show ?thesis
    by (simp add: load_factor_def init_limiter_def)
qed

text \<open>
  C8 (periodic persistence), as the code has it. Every \<^verbatim>\<open>record_action\<close> call appends
  the new record to the history (a full deque drops its oldest record), and
  \<^verbatim>\<open>_save_actions_history\<close> runs exactly when the length of the history after the
  append is a multiple of 10. Over a sequence of calls that starts with \<open>n\<close> records in
  the history and stays within the deque's bound, the \<open>k\<close>-th call saves exactly when
  \<open>n + k\<close> is a multiple of 10; starting from an empty history that is every 10th call.
\<close>

theorem periodic_persistence:
  "actions_history (fst (record_action L st w now aty s md)) =
     deque_append (actions_history st)
       (action_dict (aty, s, now, case md of None \<Rightarrow> [] | Some m \<Rightarrow> m)) \<and>
   save_calls (snd (record_action L st w now aty s md)) =
     save_calls w +
       (if length (actions_history (fst (record_action L st w now aty s md))) mod 10 = 0
        then 1 else 0) \<and>
   (length (actions_history st) + length calls \<le> maxlen \<longrightarrow>
      save_calls (snd (record_actions L st w calls)) =
        save_calls w +
          ((length (actions_history st) + length calls) div 10 -
           length (actions_history st) div 10)) \<and>
   (actions_history st = [] \<and> length calls \<le> maxlen \<longrightarrow>
      save_calls (snd (record_actions L st w calls)) = save_calls w + length calls div 10)"
proof -
  have a: "save_calls (snd (record_action L st w now aty s md)) =
     save_calls w +
       (if length (actions_history (fst (record_action L st w now aty s md))) mod 10 = 0
        then 1 else 0)"
    by (simp add: record_action_save_calls)
  have b: "length (actions_history st) + length calls \<le> maxlen \<longrightarrow>
      save_calls (snd (record_actions L st w calls)) =
        save_calls w +
          ((length (actions_history st) + length calls) div 10 -
           length (actions_history st) div 10)"
    by (simp add: record_actions_save_calls)
  have c: "actions_history st = [] \<and> length calls \<le> maxlen \<longrightarrow>
      save_calls (snd (record_actions L st w calls)) = save_calls w + length calls div 10"
    using record_actions_save_calls [of st calls L w] by simp
  from a b c show ?thesis by simp
qed

theorem periodic_persistence_counterexample:
  "save_calls (snd (record_actions \<lparr>isoformat = \<lambda>t. [], fromisoformat = \<lambda>s. None\<rparr>
      ((init_limiter (\<lambda>h. 0))\<lparr>actions_history :=
         replicate 9 (action_dict (''like'', True, 63871750800000000, []))\<rparr>)
      \<lparr>log_file = Missing, writable = True, save_calls = 0\<rparr>
      (replicate 1 (63871751400000000, ''like'', True, None)))) = 1 \<and>
   save_calls (snd (record_actions \<lparr>isoformat = \<lambda>t. [], fromisoformat = \<lambda>s. None\<rparr>
      ((init_limiter (\<lambda>h. 0))\<lparr>actions_history :=
         replicate 9 (action_dict (''like'', True, 63871750800000000, []))\<rparr>)
      \<lparr>log_file = Missing, writable = True, save_calls = 0\<rparr>
      (replicate 9 (63871751400000000, ''like'', True, None)))) = 1 \<and>
   save_calls (snd (record_actions \<lparr>isoformat = \<lambda>t. [], fromisoformat = \<lambda>s. None\<rparr>
      ((init_limiter (\<lambda>h. 0))\<lparr>actions_history :=
         replicate 9 (action_dict (''like'', True, 63871750800000000, []))\<rparr>)
      \<lparr>log_file = Missing, writable = True, save_calls = 0\<rparr>
      (replicate 10 (63871751400000000, ''like'', True, None)))) = 1"
  by (simp add: record_actions_save_calls maxlen_def)

theorem periodic_persistence_witness:
  "save_calls (snd (record_actions \<lparr>isoformat = \<lambda>t. [], fromisoformat = \<lambda>s. None\<rparr>
      (init_limiter (\<lambda>h. 0)) \<lparr>log_file = Missing, writable = True, save_calls = 0\<rparr>
      (replicate 25 (63871751400000000, ''like'', True, None)))) = 2"
proof -
  let ?L = "\<lparr>isoformat = \<lambda>t. [], fromisoformat = \<lambda>s. None\<rparr>"
  let ?w = "\<lparr>log_file = Missing, writable = True, save_calls = 0\<rparr>"
  let ?calls = "replicate 25 (63871751400000000::int, ''like'', True, None::pydict option)"
  have h: "actions_history (init_limiter (\<lambda>h. 0)) = [] \<and> length ?calls \<le> maxlen"
    by (simp add: init_limiter_def maxlen_def)
  from periodic_persistence [of ?L "init_limiter (\<lambda>h. 0)" ?w 0 "[]" True None ?calls] h
  have "save_calls (snd (record_actions ?L (init_limiter (\<lambda>h. 0)) ?w ?calls)) =
      save_calls ?w + length ?calls div 10"
    by blast
  then show ?thesis by simp
qed

text \<open>
  C9 (load resilience). \<^verbatim>\<open>_load_actions_history\<close> returns to its caller on every input.
  With a missing or corrupt store the limiter is returned as it was (at construction:
  with the empty history). A persisted record whose timestamp does not parse is dropped
  alone: the load gives what it gives on the store without that record. When all persisted
  records are objects (at most 10000, loaded into an empty history), every record whose
  timestamp parses is loaded, in order; the records outside the retention window are then
  removed, unless one of the parsed timestamps is aware: then the cleanup raises, the
  handler returns, and all loaded records stay.
\<close>

theorem load_resilience:
  "(\<exists>st'. load_actions_history L st w now = Returns st') \<and>
   (log_file w = Missing \<or> log_file w = Corrupt \<longrightarrow>
      load_actions_history L st w now = Returns st) \<and>
   (parse_timestamp L (dict_get bad ''timestamp'' PNone) = None \<longrightarrow>
      load_actions_history L st
        (w\<lparr>log_file :=
            Parsed (PDict (AList.update ''actions'' (PList (xs @ PDict bad # ys)) d))\<rparr>) now =
      load_actions_history L st
        (w\<lparr>log_file := Parsed (PDict (AList.update ''actions'' (PList (xs @ ys)) d))\<rparr>) now) \<and>
   (actions_history st = [] \<and> list_all is_dict acts \<and> length acts \<le> maxlen \<longrightarrow>
      load_actions_history L st
        (w\<lparr>log_file := Parsed (PDict (AList.update ''actions'' (PList acts) d))\<rparr>) now =
      Returns (st\<lparr>actions_history :=
        retained (now - timedelta_days 7) (List.map_filter (load_record L) acts)\<rparr>))"
proof (intro conjI impI)
  show "\<exists>st'. load_actions_history L st w now = Returns st'"
    by (rule load_returns)
next
  assume "log_file w = Missing \<or> log_file w = Corrupt"
  then show "load_actions_history L st w now = Returns st"
    by (rule load_missing_or_corrupt)
next
  assume "parse_timestamp L (dict_get bad ''timestamp'' PNone) = None"
  then show "load_actions_history L st
        (w\<lparr>log_file :=
            Parsed (PDict (AList.update ''actions'' (PList (xs @ PDict bad # ys)) d))\<rparr>) now =
      load_actions_history L st
        (w\<lparr>log_file := Parsed (PDict (AList.update ''actions'' (PList (xs @ ys)) d))\<rparr>) now"
    by (rule load_skips_bad_record)
next
  assume "actions_history st = [] \<and> list_all is_dict acts \<and> length acts \<le> maxlen"
  then show "load_actions_history L st
        (w\<lparr>log_file := Parsed (PDict (AList.update ''actions'' (PList acts) d))\<rparr>) now =
      Returns (st\<lparr>actions_history :=
        retained (now - timedelta_days 7) (List.map_filter (load_record L) acts)\<rparr>)"
    by (intro load_all_dicts) simp_all
qed

theorem load_resilience_witness:
  "load_actions_history table_lib (init_limiter (\<lambda>h. 0))
     (\<lparr>log_file = Missing, writable = True, save_calls = 0\<rparr>\<lparr>log_file :=
        Parsed (PDict (AList.update ''actions''
          (PList
            [PDict [(''type'', PStr ''like''), (''success'', PBool True),
                    (''timestamp'', PStr ''2025-01-06T09:00:00''), (''metadata'', PDict [])],
             PDict [(''type'', PStr ''reply''), (''success'', PBool True),
                    (''timestamp'', PStr ''yesterday''), (''metadata'', PDict [])],
             PDict [(''type'', PStr ''retweet''), (''success'', PBool False),
                    (''timestamp'', PStr ''2025-01-06T09:10:00''), (''metadata'', PDict [])]])
          [(''total_actions'', PInt 3)]))\<rparr>)
     63871754460000000 =
   Returns ((init_limiter (\<lambda>h. 0))\<lparr>actions_history :=
     [action_dict (''like'', True, 63871750800000000, []),
      action_dict (''retweet'', False, 63871751400000000, [])]\<rparr>) \<and>
   load_actions_history table_lib (init_limiter (\<lambda>h. 0))
     \<lparr>log_file = Corrupt, writable = True, save_calls = 0\<rparr> 63871754460000000 =
   Returns (init_limiter (\<lambda>h. 0))"
proof -
  let ?w = "\<lparr>log_file = Missing, writable = True, save_calls = 0\<rparr>"
  let ?acts = "[PDict [(''type'', PStr ''like''), (''success'', PBool True),
                    (''timestamp'', PStr ''2025-01-06T09:00:00''), (''metadata'', PDict [])],
             PDict [(''type'', PStr ''reply''), (''success'', PBool True),
                    (''timestamp'', PStr ''yesterday''), (''metadata'', PDict [])],
             PDict [(''type'', PStr ''retweet''), (''success'', PBool False),
                    (''timestamp'', PStr ''2025-01-06T09:10:00''), (''metadata'', PDict [])]]"
  have h: "actions_history (init_limiter (\<lambda>h. 0)) = [] \<and> list_all is_dict ?acts \<and>
      length ?acts \<le> maxlen"
    by (simp add: init_limiter_def is_dict_def maxlen_def)
  have c: "log_file \<lparr>log_file = Corrupt, writable = True, save_calls = 0\<rparr> = Missing \<or>
      log_file \<lparr>log_file = Corrupt, writable = True, save_calls = 0\<rparr> = Corrupt"
    by simp
  have e: "retained (63871754460000000 - timedelta_days 7)
        (List.map_filter (load_record table_lib) ?acts) =
      [action_dict (''like'', True, 63871750800000000, []),
       action_dict (''retweet'', False, 63871751400000000, [])]"
    by (simp add: List.map_filter_simps load_record_def parse_timestamp_def table_lib_def
        iso_table_def dict_get_def newer_than_def action_time_def timedelta_days_def
        action_dict_def retained_def)
  from load_resilience [of table_lib "init_limiter (\<lambda>h. 0)" ?w 63871754460000000
      "[]" "[]" "[]" "[(''total_actions'', PInt 3)]" ?acts] h
  have 1: "load_actions_history table_lib (init_limiter (\<lambda>h. 0))
      (?w\<lparr>log_file := Parsed (PDict (AList.update ''actions'' (PList ?acts)
          [(''total_actions'', PInt 3)]))\<rparr>) 63871754460000000 =
      Returns ((init_limiter (\<lambda>h. 0))\<lparr>actions_history :=
        retained (63871754460000000 - timedelta_days 7)
          (List.map_filter (load_record table_lib) ?acts)\<rparr>)"
    by blast
  from load_resilience [of table_lib "init_limiter (\<lambda>h. 0)"
      "\<lparr>log_file = Corrupt, writable = True, save_calls = 0\<rparr>" 63871754460000000] c
  have 2: "load_actions_history table_lib (init_limiter (\<lambda>h. 0))
     \<lparr>log_file = Corrupt, writable = True, save_calls = 0\<rparr> 63871754460000000 =
     Returns (init_limiter (\<lambda>h. 0))"
    by blast
  from 1 2 show ?thesis
    by (simp only: e) 
qed




end
